theory Spec2Isabelle
  imports Complex_Main "HOL-Library.Sublist"
begin

section \<open>Strings of the host language\<close>

text \<open>
  The generator of \<^verbatim>\<open>packages/create-playwright/src/index.ts\<close> works on JavaScript strings.
  They are modelled as \<^typ>\<open>string\<close>; of the characters that \<^verbatim>\<open>String.prototype.trimEnd\<close>
  removes (WhiteSpace and LineTerminator of ECMAScript) the model has the ones below U+0100:
  TAB, LF, VT, FF, CR, SPACE and NBSP.
\<close>

definition isWhiteSpace :: "char \<Rightarrow> bool" where
  "isWhiteSpace c \<longleftrightarrow>
     c = CHR 0x09 \<or> c = CHR ''\<newline>'' \<or> c = CHR 0x0B \<or> c = CHR 0x0C \<or> c = CHR 0x0D \<or>
     c = CHR '' '' \<or> c = CHR 0xA0"

definition trimEnd :: "string \<Rightarrow> string" where
  "trimEnd s = rev (dropWhile isWhiteSpace (rev s))"

text \<open>\<^verbatim>\<open>s.includes(t)\<close>: \<open>t\<close> occurs in \<open>s\<close> as a contiguous substring.\<close>

fun str_includes :: "string \<Rightarrow> string \<Rightarrow> bool" where
  "str_includes [] t = (t = [])"
| "str_includes (c # cs) t = (prefix t (c # cs) \<or> str_includes cs t)"

section \<open>Paths\<close>

text \<open>
  \<^verbatim>\<open>path.join\<close> and \<^verbatim>\<open>path.isAbsolute\<close> of Node.js, POSIX flavour, on the level of path
  segments: \<open>normalizeString\<close> drops empty and \<^verbatim>\<open>.\<close> segments and resolves \<^verbatim>\<open>..\<close> against the
  segment before it.
\<close>

fun split_on :: "char \<Rightarrow> string \<Rightarrow> string list" where
  "split_on d [] = [[]]"
| "split_on d (c # cs) =
     (if c = d then [] # split_on d cs
      else (case split_on d cs of [] \<Rightarrow> [[c]] | s # ss \<Rightarrow> (c # s) # ss))"

fun join_sep :: "string list \<Rightarrow> string" where
  "join_sep [] = []"
| "join_sep [s] = s"
| "join_sep (s # t # ss) = s @ ''/'' @ join_sep (t # ss)"

definition normalizeSegment :: "bool \<Rightarrow> string list \<Rightarrow> string \<Rightarrow> string list" where
  "normalizeSegment allowAboveRoot res seg =
     (if seg = [] \<or> seg = ''.'' then res
      else if seg = ''..'' then
        (if res \<noteq> [] \<and> last res \<noteq> ''..'' then butlast res
         else if allowAboveRoot then res @ [''..'']
         else res)
      else res @ [seg])"

definition normalizeString :: "string \<Rightarrow> bool \<Rightarrow> string" where
  "normalizeString p allowAboveRoot =
     join_sep (foldl (normalizeSegment allowAboveRoot) [] (split_on CHR ''/'' p))"

definition isAbsolute :: "string \<Rightarrow> bool" where
  "isAbsolute p \<longleftrightarrow> (case p of [] \<Rightarrow> False | c # _ \<Rightarrow> c = CHR ''/'')"

definition path_normalize :: "string \<Rightarrow> string" where
  "path_normalize p =
     (if p = [] then ''.''
      else let trailingSeparator = (last p = CHR ''/'');
               q = normalizeString p (\<not> isAbsolute p)
           in if q = [] then (if isAbsolute p then ''/'' else if trailingSeparator then ''./'' else ''.'')
              else (if isAbsolute p then ''/'' else []) @ q @ (if trailingSeparator then ''/'' else []))"

definition path_join :: "string list \<Rightarrow> string" where
  "path_join args =
     (case filter (\<lambda>arg. arg \<noteq> []) args of
        [] \<Rightarrow> ''.''
      | a # as \<Rightarrow> path_normalize (join_sep (a # as)))"

text \<open>The segments that normalisation keeps are not empty and hold no separator.\<close>

definition proper :: "string \<Rightarrow> bool" where
  "proper seg \<longleftrightarrow> seg \<noteq> [] \<and> CHR ''/'' \<notin> set seg"

section \<open>Values produced by JSON.parse\<close>

text \<open>
  The parsed \<^verbatim>\<open>package.json\<close> has the static type \<^verbatim>\<open>any\<close>, so the patch step is modelled on
  dynamically typed values. An object is the list of its own properties in property order.
  An array carries its elements and, apart from them, the named properties that an assignment
  such as \<^verbatim>\<open>a['k'] = v\<close> stores on it. Numbers are rationals: the program only tests them
  for truthiness and copies them.
\<close>

datatype js =
    JNull
  | JBool bool
  | JNum rat
  | JStr string
  | JArr "js list" "(string \<times> js) list"
  | JObj "(string \<times> js) list"

datatype error =
    TypeError
  | SyntaxError
  | ENOENT string
  | EISDIR string
  | Thrown string

definition bindE :: "error + 'a \<Rightarrow> ('a \<Rightarrow> error + 'b) \<Rightarrow> error + 'b" where
  "bindE m f = (case m of Inl e \<Rightarrow> Inl e | Inr a \<Rightarrow> f a)"

text \<open>Truthiness of a value that may be \<^verbatim>\<open>undefined\<close> (\<open>None\<close>).\<close>

fun truthy :: "js option \<Rightarrow> bool" where
  "truthy None = False"
| "truthy (Some JNull) = False"
| "truthy (Some (JBool b)) = b"
| "truthy (Some (JNum n)) = (n \<noteq> 0)"
| "truthy (Some (JStr s)) = (s \<noteq> [])"
| "truthy (Some (JArr xs ps)) = True"
| "truthy (Some (JObj ps)) = True"

text \<open>
  Property access \<^verbatim>\<open>v[k]\<close>, assignment \<^verbatim>\<open>v[k] = x\<close> and \<^verbatim>\<open>delete v[k]\<close>, for the keys the
  program uses (\<^verbatim>\<open>scripts\<close>, \<^verbatim>\<open>test\<close>, \<^verbatim>\<open>test:e2e\<close>): none of them is an array index or a
  property of a built-in prototype. The module is compiled in strict mode, where assigning
  a property on a primitive value throws.
\<close>

fun getProp :: "js option \<Rightarrow> string \<Rightarrow> error + js option" where
  "getProp None k = Inl TypeError"
| "getProp (Some JNull) k = Inl TypeError"
| "getProp (Some (JObj ps)) k = Inr (map_of ps k)"
| "getProp (Some (JArr xs ps)) k = Inr (map_of ps k)"
| "getProp (Some v) k = Inr None"

fun setEntry :: "('k \<times> 'v) list \<Rightarrow> 'k \<Rightarrow> 'v \<Rightarrow> ('k \<times> 'v) list" where
  "setEntry [] k x = [(k, x)]"
| "setEntry ((k', x') # ps) k x = (if k' = k then (k, x) # ps else (k', x') # setEntry ps k x)"

fun setProp :: "js option \<Rightarrow> string \<Rightarrow> js \<Rightarrow> error + js" where
  "setProp (Some (JObj ps)) k x = Inr (JObj (setEntry ps k x))"
| "setProp (Some (JArr xs ps)) k x = Inr (JArr xs (setEntry ps k x))"
| "setProp v k x = Inl TypeError"

definition deleteEntry :: "('k \<times> 'v) list \<Rightarrow> 'k \<Rightarrow> ('k \<times> 'v) list" where
  "deleteEntry ps k = filter (\<lambda>p. fst p \<noteq> k) ps"

fun deleteProp :: "js option \<Rightarrow> string \<Rightarrow> error + js" where
  "deleteProp None k = Inl TypeError"
| "deleteProp (Some JNull) k = Inl TypeError"
| "deleteProp (Some (JObj ps)) k = Inr (JObj (deleteEntry ps k))"
| "deleteProp (Some (JArr xs ps)) k = Inr (JArr xs (deleteEntry ps k))"
| "deleteProp (Some v) k = Inr v"

text \<open>
  \<^verbatim>\<open>v?.includes(t)\<close> with a string \<open>t\<close>: \<^verbatim>\<open>undefined\<close> when \<open>v\<close> is \<^verbatim>\<open>undefined\<close> or
  \<^verbatim>\<open>null\<close> (the result below is its truthiness), the substring test on a string, the
  membership test on an array, and a TypeError on every other value, which has no callable
  \<^verbatim>\<open>includes\<close>.
\<close>

fun optIncludes :: "js option \<Rightarrow> string \<Rightarrow> error + bool" where
  "optIncludes None t = Inr False"
| "optIncludes (Some JNull) t = Inr False"
| "optIncludes (Some (JStr s)) t = Inr (str_includes s t)"
| "optIncludes (Some (JArr xs ps)) t =
     (case map_of ps ''includes'' of None \<Rightarrow> Inr (JStr t \<in> set xs) | Some f \<Rightarrow> Inl TypeError)"
| "optIncludes (Some v) t = Inl TypeError"

text \<open>What \<^verbatim>\<open>JSON.stringify\<close> serialises: of an array only its elements.\<close>

primrec jsonValue :: "js \<Rightarrow> js" where
  "jsonValue JNull = JNull"
| "jsonValue (JBool b) = JBool b"
| "jsonValue (JNum n) = JNum n"
| "jsonValue (JStr s) = JStr s"
| "jsonValue (JArr xs ps) = JArr (map jsonValue xs) []"
| "jsonValue (JObj ps) = JObj (map (map_prod id jsonValue) ps)"

section \<open>The host and the imported functions\<close>

text \<open>
  The file system maps a path to a file with its text or to a directory. The trace records,
  in order, the calls by which the program acts on the outside: console output, the
  interactive prompt, the two helpers that run commands and write files, and the exit.
  The text of the console messages is not modelled, only what it is built from.
\<close>

datatype entry = File string | Dir

record host =
  fs :: "string \<Rightarrow> entry option"
  TEST_OPTIONS :: "string option"

datatype language = JavaScript | TypeScript

datatype packageManager = npm | yarn

record PromptOptions =
  testDir :: string
  installGitHubActions :: bool
  language :: language

record Command =
  name :: string
  command :: string

datatype question =
    Select string string "string list"
  | Text string string string
  | Confirm string string bool

datatype message =
    GettingStarted
  | InitializingProject string
  | Success string
  | Guidance string string string string

datatype event =
    ConsoleLog message
  | ConsoleError error
  | Prompt "question list"
  | ExecuteCommands string "Command list"
  | CreateFiles string "(string \<times> string) list" "bool option"
  | ProcessExit nat

record world =
  host :: host
  trace :: "event list"

type_synonym 'a io = "world \<Rightarrow> (error + 'a) \<times> world"

definition return :: "'a \<Rightarrow> 'a io" where
  "return a w = (Inr a, w)"

definition bindIO :: "'a io \<Rightarrow> ('a \<Rightarrow> 'b io) \<Rightarrow> 'b io" where
  "bindIO m f w = (case m w of (Inl e, w') \<Rightarrow> (Inl e, w') | (Inr a, w') \<Rightarrow> f a w')"

definition fromHost :: "(host \<Rightarrow> error + 'a) \<Rightarrow> 'a io" where
  "fromHost f w = (f (host w), w)"

definition onHost :: "(host \<Rightarrow> error option \<times> host) \<Rightarrow> unit io" where
  "onHost f w =
     (case f (host w) of
        (None, h) \<Rightarrow> (Inr (), w\<lparr>host := h\<rparr>)
      | (Some e, h) \<Rightarrow> (Inl e, w\<lparr>host := h\<rparr>))"

definition emit :: "event \<Rightarrow> unit io" where
  "emit ev w = (Inr (), w\<lparr>trace := trace w @ [ev]\<rparr>)"

definition existsSync :: "string \<Rightarrow> host \<Rightarrow> bool" where
  "existsSync p h \<longleftrightarrow> fs h p \<noteq> None"

definition readFileSync :: "string \<Rightarrow> host \<Rightarrow> error + string" where
  "readFileSync p h =
     (case fs h p of
        None \<Rightarrow> Inl (ENOENT p)
      | Some Dir \<Rightarrow> Inl (EISDIR p)
      | Some (File text) \<Rightarrow> Inr text)"

text \<open>
  What \<^verbatim>\<open>index.ts\<close> imports and this development does not define: the helpers of
  \<^verbatim>\<open>./utils\<close>, the prompt of enquirer, \<^verbatim>\<open>fs.mkdirSync\<close>, \<^verbatim>\<open>JSON.parse\<close> (once at the declared
  type of the answers, once at type \<^verbatim>\<open>any\<close>), \<^verbatim>\<open>JSON.stringify\<close> with indentation 2, and
  \<^verbatim>\<open>__dirname\<close>. They are parameters of the model; those with an effect act on the host.
  \<^verbatim>\<open>executeCommands\<close> is called without \<^verbatim>\<open>await\<close>: it is synchronous, and an error of it
  is thrown in the caller. When \<^verbatim>\<open>createFiles\<close> is called with two arguments, its third one
  is \<open>None\<close>.
\<close>

record imported =
  determineRootDir :: "host \<Rightarrow> error + string"
  determinePackageManager :: "string \<Rightarrow> host \<Rightarrow> error + packageManager"
  languagetoFileExtension :: "language \<Rightarrow> string"
  executeTemplate :: "string \<Rightarrow> (string \<times> string) list \<Rightarrow> error + string"
  executeCommands :: "string \<Rightarrow> Command list \<Rightarrow> host \<Rightarrow> error option \<times> host"
  createFiles :: "string \<Rightarrow> (string \<times> string) list \<Rightarrow> bool option \<Rightarrow> host \<Rightarrow> error option \<times> host"
  prompt :: "question list \<Rightarrow> host \<Rightarrow> (error + PromptOptions) \<times> host"
  mkdirSync :: "string \<Rightarrow> host \<Rightarrow> error option \<times> host"
  JSON_parse_options :: "string \<Rightarrow> error + PromptOptions"
  JSON_parse :: "string \<Rightarrow> error + js"
  JSON_stringify :: "js \<Rightarrow> string"
  dirname :: string

section \<open>The generator\<close>

definition PACKAGE_JSON_TEST_SCRIPT_CMD :: string where
  "PACKAGE_JSON_TEST_SCRIPT_CMD = ''test:e2e''"

definition commandToRunTests :: "packageManager \<Rightarrow> string" where
  "commandToRunTests pm =
     (if pm = yarn then ''yarn '' @ PACKAGE_JSON_TEST_SCRIPT_CMD
      else ''npm run '' @ PACKAGE_JSON_TEST_SCRIPT_CMD)"

record Generator =
  rootDir :: string
  packageManager :: packageManager

record plan =
  files :: "(string \<times> string) list"
  commands :: "Command list"

definition new_Generator :: "imported \<Rightarrow> string \<Rightarrow> Generator io" where
  "new_Generator U dir =
     bindIO (fromHost (\<lambda>h. Inr (existsSync dir h))) (\<lambda>ex.
     bindIO (if \<not> ex then onHost (mkdirSync U dir) else return ()) (\<lambda>_.
     bindIO (fromHost (determinePackageManager U dir)) (\<lambda>pm.
     return \<lparr>rootDir = dir, packageManager = pm\<rparr>)))"

definition printIntro :: "Generator \<Rightarrow> unit io" where
  "printIntro g =
     bindIO (emit (ConsoleLog GettingStarted)) (\<lambda>_.
     emit (ConsoleLog (InitializingProject (rootDir g))))"

fun questionName :: "question \<Rightarrow> string" where
  "questionName (Select n message choices) = n"
| "questionName (Text n message initial) = n"
| "questionName (Confirm n message initial) = n"

definition questions :: "question list" where
  "questions =
     [Select ''language'' ''Do you want to use TypeScript or JavaScript?'' [''TypeScript'', ''JavaScript''],
      Text ''testDir'' ''Where to put your end-to-end tests?'' ''e2e'',
      Confirm ''installGitHubActions'' ''Add a GitHub Actions workflow?'' True]"

definition promptIO :: "imported \<Rightarrow> question list \<Rightarrow> PromptOptions io" where
  "promptIO U qs =
     bindIO (emit (Prompt qs)) (\<lambda>_ w.
       case prompt U qs (host w) of (r, h) \<Rightarrow> (r, w\<lparr>host := h\<rparr>))"

text \<open>\<^verbatim>\<open>if (process.env.TEST_OPTIONS)\<close>: an unset variable and the empty string are falsy.\<close>

definition askQuestions :: "imported \<Rightarrow> PromptOptions io" where
  "askQuestions U =
     bindIO (fromHost (\<lambda>h. Inr (TEST_OPTIONS h))) (\<lambda>opt.
       case opt of
         None \<Rightarrow> promptIO U questions
       | Some s \<Rightarrow>
           if s \<noteq> [] then fromHost (\<lambda>h. JSON_parse_options U s)
           else promptIO U questions)"

text \<open>Whether \<open>askQuestions\<close> shows the prompt in a world.\<close>

definition prompted :: "world \<Rightarrow> bool" where
  "prompted w \<longleftrightarrow> TEST_OPTIONS (host w) = None \<or> TEST_OPTIONS (host w) = Some []"

definition readAsset :: "imported \<Rightarrow> string \<Rightarrow> string io" where
  "readAsset U asset =
     (let assetsDir = path_join [dirname U, ''..'', ''assets'']
      in fromHost (readFileSync (path_join [assetsDir, asset])))"

definition buildGitIgnore :: "Generator \<Rightarrow> string io" where
  "buildGitIgnore g =
     bindIO (fromHost (\<lambda>h. Inr (existsSync (path_join [rootDir g, ''.gitignore'']) h))) (\<lambda>ex.
     bindIO (if ex
             then bindIO (fromHost (readFileSync (path_join [rootDir g, ''.gitignore''])))
                    (\<lambda>text. return (trimEnd text @ ''\<newline>''))
             else return []) (\<lambda>gitIgnore.
     bindIO (return (if \<not> str_includes gitIgnore ''node_modules''
                     then gitIgnore @ ''node_modules/\<newline>'' else gitIgnore)) (\<lambda>gitIgnore.
     return (gitIgnore @ ''test-results/\<newline>''))))"

definition identifyChanges :: "imported \<Rightarrow> Generator \<Rightarrow> PromptOptions \<Rightarrow> plan io" where
  "identifyChanges U g answers =
     (let fileExtension = languagetoFileExtension U (language answers);
          pm = packageManager g
      in
      bindIO (readAsset U (''playwright.config.'' @ fileExtension)) (\<lambda>configAsset.
      bindIO (fromHost (\<lambda>h. executeTemplate U configAsset [(''testDir'', testDir answers)])) (\<lambda>config.
      bindIO (return (setEntry [] (''playwright.config.'' @ fileExtension) config)) (\<lambda>files.
      bindIO (if installGitHubActions answers
              then bindIO (readAsset U ''github-actions.yml'') (\<lambda>actionsAsset.
                   bindIO (fromHost (\<lambda>h. executeTemplate U actionsAsset
                             [(''installDepsCommand'', if pm = npm then ''npm ci'' else ''yarn''),
                              (''runTestsCommand'', commandToRunTests pm)])) (\<lambda>githubActionsScript.
                   return (setEntry files ''.github/workflows/playwright.yml'' githubActionsScript)))
              else return files) (\<lambda>files.
      bindIO (return (path_join [testDir answers, ''example.spec.'' @ fileExtension])) (\<lambda>examplePath.
      bindIO (readAsset U (''example.spec.'' @ fileExtension)) (\<lambda>example.
      bindIO (return (setEntry files examplePath example)) (\<lambda>files.
      bindIO (fromHost (\<lambda>h. Inr (existsSync (path_join [rootDir g, ''package.json'']) h))) (\<lambda>ex.
      bindIO (return
               ((if \<not> ex
                 then [\<lparr>name = ''Initializing '' @ (if pm = yarn then ''Yarn'' else ''NPM'') @ '' project'',
                        command = (if pm = yarn then ''yarn init -y'' else ''npm init -y'')\<rparr>]
                 else []) @
                [\<lparr>name = ''Installing Playwright Test'',
                  command = (if pm = yarn then ''yarn add --dev @playwright/test''
                             else ''npm install --save-dev @playwright/test'')\<rparr>,
                 \<lparr>name = ''Downloading browsers'',
                  command = ''npx playwright install --with-deps''\<rparr>])) (\<lambda>commands.
      bindIO (buildGitIgnore g) (\<lambda>gitIgnore.
      return \<lparr>files = setEntry files ''.gitignore'' gitIgnore, commands = commands\<rparr>)))))))))))"

text \<open>Lines 141 to 145 of the source: the patch of the parsed \<^verbatim>\<open>package.json\<close>.\<close>

definition patchScripts :: "js \<Rightarrow> error + js" where
  "patchScripts packageJSON =
     bindE (getProp (Some packageJSON) ''scripts'') (\<lambda>scripts.
     bindE (if \<not> truthy scripts then setProp (Some packageJSON) ''scripts'' (JObj [])
            else Inr packageJSON) (\<lambda>packageJSON.
     bindE (getProp (Some packageJSON) ''scripts'') (\<lambda>scripts.
     bindE (getProp scripts ''test'') (\<lambda>test.
     bindE (optIncludes test ''no test specified'') (\<lambda>noTestSpecified.
     bindE (if noTestSpecified then map_sum id Some (deleteProp scripts ''test'')
            else Inr scripts) (\<lambda>scripts.
     bindE (setProp scripts PACKAGE_JSON_TEST_SCRIPT_CMD (JStr ''playwright test'')) (\<lambda>scripts.
     setProp (Some packageJSON) ''scripts'' scripts)))))))"

definition patchPackageJSON :: "imported \<Rightarrow> Generator \<Rightarrow> unit io" where
  "patchPackageJSON U g =
     bindIO (fromHost (readFileSync (path_join [rootDir g, ''package.json'']))) (\<lambda>text.
     bindIO (fromHost (\<lambda>h. JSON_parse U text)) (\<lambda>packageJSON.
     bindIO (fromHost (\<lambda>h. patchScripts packageJSON)) (\<lambda>packageJSON.
     bindIO (return (setEntry [] ''package.json''
                       (JSON_stringify U (jsonValue packageJSON) @ ''\<newline>''))) (\<lambda>files.
     bindIO (emit (CreateFiles (rootDir g) files (Some True))) (\<lambda>_.
     onHost (createFiles U (rootDir g) files (Some True)))))))"

definition printOutro :: "imported \<Rightarrow> Generator \<Rightarrow> PromptOptions \<Rightarrow> unit io" where
  "printOutro U g answers =
     bindIO (emit (ConsoleLog (Success (rootDir g)))) (\<lambda>_.
     emit (ConsoleLog (Guidance (rootDir g)
       (commandToRunTests (packageManager g))
       (testDir answers @ ''/example.spec.'' @ languagetoFileExtension U (language answers))
       (if packageManager g = npm then ''npx'' else ''yarn''))))"

definition run :: "imported \<Rightarrow> Generator \<Rightarrow> unit io" where
  "run U g =
     bindIO (printIntro g) (\<lambda>_.
     bindIO (askQuestions U) (\<lambda>answers.
     bindIO (identifyChanges U g answers) (\<lambda>changes.
     bindIO (emit (ExecuteCommands (rootDir g) (commands changes))) (\<lambda>_.
     bindIO (onHost (executeCommands U (rootDir g) (commands changes))) (\<lambda>_.
     bindIO (emit (CreateFiles (rootDir g) (files changes) None)) (\<lambda>_.
     bindIO (onHost (createFiles U (rootDir g) (files changes) None)) (\<lambda>_.
     bindIO (patchPackageJSON U g) (\<lambda>_.
     printOutro U g answers))))))))"

text \<open>
  The top level: the body of the asynchronous function, and its \<^verbatim>\<open>catch\<close>. The result of
  \<open>main\<close> is the exit code of the process with the final world.
\<close>

definition start :: "imported \<Rightarrow> unit io" where
  "start U =
     bindIO (fromHost (determineRootDir U)) (\<lambda>rootDir.
     bindIO (new_Generator U rootDir) (\<lambda>generator.
     run U generator))"

definition main :: "imported \<Rightarrow> world \<Rightarrow> nat \<times> world" where
  "main U w =
     (case start U w of
        (Inr u, w') \<Rightarrow> (0, w')
      | (Inl e, w') \<Rightarrow> (1, w'\<lparr>trace := trace w' @ [ConsoleError e, ProcessExit 1]\<rparr>))"

text \<open>
  When the patch removes a \<^verbatim>\<open>test\<close> script: a string that contains
  \<^verbatim>\<open>no test specified\<close>, or an array with that string as an element.
\<close>

definition testRemoved :: "js option \<Rightarrow> bool" where
  "testRemoved t \<longleftrightarrow>
     (case t of
        Some (JStr s) \<Rightarrow> str_includes s ''no test specified''
      | Some (JArr xs es) \<Rightarrow> JStr ''no test specified'' \<in> set xs
      | _ \<Rightarrow> False)"

text \<open>
  Modelled from the spec: \<^verbatim>\<open>executeCommands\<close> of \<^verbatim>\<open>./utils\<close> is not part of the sources at hand.
  The spec says of it that the commands run one after another, in the listed order, and that
  the first error ends the run. The effect of one command line in a working directory is the
  parameter \<open>execSync\<close>; next to the outcome the model returns the commands it has started.
\<close>

fun executeCommands_spec ::
  "(string \<Rightarrow> string \<Rightarrow> host \<Rightarrow> error option \<times> host) \<Rightarrow> string \<Rightarrow> Command list \<Rightarrow> host
     \<Rightarrow> (error option \<times> host) \<times> Command list" where
  "executeCommands_spec execSync cwd [] h = ((None, h), [])"
| "executeCommands_spec execSync cwd (c # cs) h =
     (case execSync (command c) cwd h of
        (Some e, h') \<Rightarrow> ((Some e, h'), [c])
      | (None, h') \<Rightarrow>
          (case executeCommands_spec execSync cwd cs h' of
             (r, started) \<Rightarrow> (r, c # started)))"

text \<open>
  The paths that the plan computation and the patch step look at, and what it means for a
  computation to depend on the host only through the entries at given paths: it leaves the
  world as it is, and in two worlds that agree at these paths it has the same result.
\<close>

definition inputsRead :: "imported \<Rightarrow> Generator \<Rightarrow> PromptOptions \<Rightarrow> string list" where
  "inputsRead U g answers =
     (let fileExtension = languagetoFileExtension U (language answers);
          assetsDir = path_join [dirname U, ''..'', ''assets'']
      in [path_join [assetsDir, ''playwright.config.'' @ fileExtension],
          path_join [assetsDir, ''example.spec.'' @ fileExtension],
          path_join [rootDir g, ''package.json''],
          path_join [rootDir g, ''.gitignore'']] @
         (if installGitHubActions answers then [path_join [assetsDir, ''github-actions.yml'']]
          else []))"

definition readsOnly :: "string set \<Rightarrow> 'a io \<Rightarrow> bool" where
  "readsOnly P m \<longleftrightarrow>
     (\<forall>w. snd (m w) = w) \<and>
     (\<forall>w1 w2. (\<forall>p \<in> P. fs (host w1) p = fs (host w2) p) \<longrightarrow> fst (m w1) = fst (m w2))"

text \<open>
  The \<^verbatim>\<open>test\<close> scripts that the amended claim C9 speaks of: a string that contains
  \<^verbatim>\<open>no test specified\<close>. It leaves aside the parsed documents whose \<^verbatim>\<open>scripts\<close> object has an
  array as \<^verbatim>\<open>test\<close>.
\<close>

definition noTestSpecified :: "js option \<Rightarrow> bool" where
  "noTestSpecified t \<longleftrightarrow>
     (case t of Some (JStr s) \<Rightarrow> str_includes s ''no test specified'' | _ \<Rightarrow> False)"

definition testIsArray :: "js \<Rightarrow> bool" where
  "testIsArray packageJSON \<longleftrightarrow>
     (case packageJSON of
        JObj ps \<Rightarrow>
          (case map_of ps ''scripts'' of
             Some (JObj ss) \<Rightarrow> (case map_of ss ''test'' of Some (JArr xs es) \<Rightarrow> True | _ \<Rightarrow> False)
           | _ \<Rightarrow> False)
      | _ \<Rightarrow> False)"

section \<open>JSON texts\<close>

text \<open>
  \<^verbatim>\<open>JSON.parse\<close> and \<^verbatim>\<open>JSON.stringify(value, null, 2)\<close> of ECMAScript on a fragment of JSON:
  objects, arrays, strings without escapes, \<^verbatim>\<open>true\<close>, \<^verbatim>\<open>false\<close> and \<^verbatim>\<open>null\<close>. Numbers and
  escapes are outside the fragment: the parser stops at them with an error of its own, and
  the printer has no digits. They serve to evaluate the patch step on the text of a file;
  the generator itself takes both functions as parameters.

  The parser builds an object as \<^verbatim>\<open>JSON.parse\<close> does, member by member in the order of the
  text: a name that is already there keeps its place and takes the new value; a new name that
  is an array index goes among the array indices, which come first in ascending order; any
  other new name goes last.
\<close>

definition isJSONSpace :: "char \<Rightarrow> bool" where
  "isJSONSpace c \<longleftrightarrow> c = CHR '' '' \<or> c = CHR 0x09 \<or> c = CHR ''\<newline>'' \<or> c = CHR 0x0D"

definition skipSpace :: "string \<Rightarrow> string" where
  "skipSpace s = dropWhile isJSONSpace s"

definition isDigit :: "char \<Rightarrow> bool" where
  "isDigit c \<longleftrightarrow> (48::int) \<le> of_char c \<and> of_char c \<le> (57::int)"

definition indexOf :: "string \<Rightarrow> int" where
  "indexOf k = foldl (\<lambda>n c. 10 * n + (of_char c - 48)) 0 k"

definition isArrayIndex :: "string \<Rightarrow> bool" where
  "isArrayIndex k \<longleftrightarrow>
     k \<noteq> [] \<and> list_all isDigit k \<and> (k = ''0'' \<or> hd k \<noteq> CHR ''0'') \<and> indexOf k < 4294967295"

fun insertIndex :: "string \<Rightarrow> js \<Rightarrow> (string \<times> js) list \<Rightarrow> (string \<times> js) list" where
  "insertIndex k v [] = [(k, v)]"
| "insertIndex k v ((k', v') # ps) =
     (if isArrayIndex k' \<and> indexOf k' < indexOf k then (k', v') # insertIndex k v ps
      else (k, v) # (k', v') # ps)"

definition defineProperty :: "(string \<times> js) list \<Rightarrow> string \<Rightarrow> js \<Rightarrow> (string \<times> js) list" where
  "defineProperty ps k v =
     (if isArrayIndex k \<and> k \<notin> fst ` set ps then insertIndex k v ps else setEntry ps k v)"

definition outsideFragment :: error where
  "outsideFragment = Thrown ''outside the fragment''"

text \<open>The characters of a string after its opening quote, up to the closing one.\<close>

fun parseChars :: "string \<Rightarrow> error + (string \<times> string)" where
  "parseChars [] = Inl SyntaxError"
| "parseChars (c # cs) =
     (if c = CHR 0x22 then Inr ([], cs)
      else if c = CHR 0x5C then Inl outsideFragment
      else if of_char c < (32::int) then Inl SyntaxError
      else (case parseChars cs of
              Inl e \<Rightarrow> Inl e
            | Inr (s, rest) \<Rightarrow> Inr (c # s, rest)))"

text \<open>The next character that is not white space, and what follows it.\<close>

definition nextChar :: "string \<Rightarrow> (char \<times> string) option" where
  "nextChar s = (case skipSpace s of [] \<Rightarrow> None | c # cs \<Rightarrow> Some (c, cs))"

text \<open>
  The first argument bounds the number of nested calls; the length of the text is enough, as
  every call reads at least one character before the next.
\<close>

fun parseValue :: "nat \<Rightarrow> string \<Rightarrow> error + (js \<times> string)"
  and parseMembers :: "nat \<Rightarrow> (string \<times> js) list \<Rightarrow> string \<Rightarrow> error + (js \<times> string)"
  and parseElements :: "nat \<Rightarrow> js list \<Rightarrow> string \<Rightarrow> error + (js \<times> string)" where
  "parseValue 0 s = Inl outsideFragment"
| "parseValue (Suc n) s =
     (case nextChar s of
        None \<Rightarrow> Inl SyntaxError
      | Some (c, cs) \<Rightarrow>
          if c = CHR ''{'' then
            (case nextChar cs of
               None \<Rightarrow> Inl SyntaxError
             | Some (d, rest) \<Rightarrow> if d = CHR ''}'' then Inr (JObj [], rest) else parseMembers n [] cs)
          else if c = CHR ''['' then
            (case nextChar cs of
               None \<Rightarrow> Inl SyntaxError
             | Some (d, rest) \<Rightarrow> if d = CHR '']'' then Inr (JArr [] [], rest) else parseElements n [] cs)
          else if c = CHR 0x22 then
            (case parseChars cs of Inl e \<Rightarrow> Inl e | Inr (str, rest) \<Rightarrow> Inr (JStr str, rest))
          else if prefix ''true'' (c # cs) then Inr (JBool True, drop 4 (c # cs))
          else if prefix ''false'' (c # cs) then Inr (JBool False, drop 5 (c # cs))
          else if prefix ''null'' (c # cs) then Inr (JNull, drop 4 (c # cs))
          else if c = CHR ''-'' \<or> isDigit c then Inl outsideFragment
          else Inl SyntaxError)"
| "parseMembers 0 ps s = Inl outsideFragment"
| "parseMembers (Suc n) ps s =
     (case nextChar s of
        None \<Rightarrow> Inl SyntaxError
      | Some (c, cs) \<Rightarrow>
          if c \<noteq> CHR 0x22 then Inl SyntaxError
          else
            (case parseChars cs of
               Inl e \<Rightarrow> Inl e
             | Inr (k, rest) \<Rightarrow>
                 (case nextChar rest of
                    None \<Rightarrow> Inl SyntaxError
                  | Some (colon, rest) \<Rightarrow>
                      if colon \<noteq> CHR '':'' then Inl SyntaxError
                      else
                        (case parseValue n rest of
                           Inl e \<Rightarrow> Inl e
                         | Inr (v, rest) \<Rightarrow>
                             (case nextChar rest of
                                None \<Rightarrow> Inl SyntaxError
                              | Some (d, rest) \<Rightarrow>
                                  if d = CHR '','' then parseMembers n (defineProperty ps k v) rest
                                  else if d = CHR ''}'' then Inr (JObj (defineProperty ps k v), rest)
                                  else Inl SyntaxError)))))"
| "parseElements 0 xs s = Inl outsideFragment"
| "parseElements (Suc n) xs s =
     (case parseValue n s of
        Inl e \<Rightarrow> Inl e
      | Inr (v, rest) \<Rightarrow>
          (case nextChar rest of
             None \<Rightarrow> Inl SyntaxError
           | Some (d, rest) \<Rightarrow>
               if d = CHR '','' then parseElements n (xs @ [v]) rest
               else if d = CHR '']'' then Inr (JArr (xs @ [v]) [], rest)
               else Inl SyntaxError))"

definition parseJSON :: "string \<Rightarrow> error + js" where
  "parseJSON s =
     (case parseValue (Suc (length s)) s of
        Inl e \<Rightarrow> Inl e
      | Inr (v, rest) \<Rightarrow> if skipSpace rest = [] then Inr v else Inl SyntaxError)"

definition hexDigit :: "int \<Rightarrow> char" where
  "hexDigit n = ''0123456789abcdef'' ! nat n"

definition quoteChar :: "char \<Rightarrow> string" where
  "quoteChar c =
     (if c = CHR 0x22 then [CHR 0x5C, CHR 0x22]
      else if c = CHR 0x5C then [CHR 0x5C, CHR 0x5C]
      else if c = CHR 0x08 then [CHR 0x5C, CHR ''b'']
      else if c = CHR 0x0C then [CHR 0x5C, CHR ''f'']
      else if c = CHR ''\<newline>'' then [CHR 0x5C, CHR ''n'']
      else if c = CHR 0x0D then [CHR 0x5C, CHR ''r'']
      else if c = CHR 0x09 then [CHR 0x5C, CHR ''t'']
      else if of_char c < (32::int)
        then [CHR 0x5C, CHR ''u'', CHR ''0'', CHR ''0'',
              hexDigit (of_char c div 16), hexDigit (of_char c mod 16)]
      else [c])"

definition quote :: "string \<Rightarrow> string" where
  "quote s = [CHR 0x22] @ concat (map quoteChar s) @ [CHR 0x22]"

fun joinLines :: "string list \<Rightarrow> string" where
  "joinLines [] = []"
| "joinLines [s] = s"
| "joinLines (s # t # ss) = s @ '',\<newline>'' @ joinLines (t # ss)"

text \<open>The second argument is the indentation of the line on which the value starts.\<close>

primrec render :: "js \<Rightarrow> string \<Rightarrow> string" where
  "render JNull = (\<lambda>ind. ''null'')"
| "render (JBool b) = (\<lambda>ind. if b then ''true'' else ''false'')"
| "render (JNum n) = (\<lambda>ind. [])"
| "render (JStr s) = (\<lambda>ind. quote s)"
| "render (JArr xs ps) = (\<lambda>ind.
     if xs = [] then ''[]''
     else ''[\<newline>'' @
          joinLines (map (\<lambda>f. ind @ ''  '' @ f (ind @ ''  '')) (map render xs)) @
          ''\<newline>'' @ ind @ '']'')"
| "render (JObj ps) = (\<lambda>ind.
     if ps = [] then ''{}''
     else ''{\<newline>'' @
          joinLines (map (\<lambda>(k, f). ind @ ''  '' @ quote k @ '': '' @ f (ind @ ''  ''))
                      (map (map_prod id render) ps)) @
          ''\<newline>'' @ ind @ ''}'')"

definition stringifyJSON :: "js \<Rightarrow> string" where
  "stringifyJSON v = render v []"

section \<open>Sample inputs\<close>

text \<open>
  A small instance of the imported functions and of the host, for evaluating the generator:
  the package lives in \<^verbatim>\<open>/pkg\<close>, the project in \<^verbatim>\<open>/proj\<close>; running the commands leaves a
  \<^verbatim>\<open>package.json\<close> behind, writing files stores them below the root directory, and the user
  accepts the defaults of the prompt.
\<close>

definition sampleAnswers :: PromptOptions where
  "sampleAnswers = \<lparr>testDir = ''e2e'', installGitHubActions = True, language = TypeScript\<rparr>"

definition sampleOptions :: string where
  \<open>sampleOptions = ''{"language":"JavaScript","testDir":"tests","installGitHubActions":false}''\<close>

definition sampleJSON :: string where
  \<open>sampleJSON = ''{\<newline>  "scripts": {\<newline>    "test:e2e": "playwright test"\<newline>  }\<newline>}''\<close>

definition sampleImports :: imported where
  "sampleImports =
     \<lparr>determineRootDir = (\<lambda>h. Inr ''/proj''),
      determinePackageManager = (\<lambda>dir h. Inr npm),
      languagetoFileExtension = (\<lambda>l. case l of JavaScript \<Rightarrow> ''js'' | TypeScript \<Rightarrow> ''ts''),
      executeTemplate = (\<lambda>template params. Inr template),
      executeCommands = (\<lambda>cwd cmds h.
        (None, h\<lparr>fs := (fs h)(path_join [cwd, ''package.json''] \<mapsto> File ''{}'')\<rparr>)),
      createFiles = (\<lambda>dir fls force h.
        (None, h\<lparr>fs := foldl (\<lambda>f (p, c). f(path_join [dir, p] \<mapsto> File c)) (fs h) fls\<rparr>)),
      prompt = (\<lambda>qs h. (Inr sampleAnswers, h)),
      mkdirSync = (\<lambda>p h. (None, h\<lparr>fs := (fs h)(p \<mapsto> Dir)\<rparr>)),
      JSON_parse_options = (\<lambda>s.
        if s = sampleOptions
        then Inr \<lparr>testDir = ''tests'', installGitHubActions = False, language = JavaScript\<rparr>
        else Inl SyntaxError),
      JSON_parse = (\<lambda>s. if s = ''{}'' then Inr (JObj []) else Inl SyntaxError),
      JSON_stringify = (\<lambda>v.
        if v = JObj [(''scripts'', JObj [(''test:e2e'', JStr ''playwright test'')])]
        then sampleJSON else ''null''),
      dirname = ''/pkg/lib''\<rparr>"

text \<open>
  The same instance with \<^verbatim>\<open>executeCommands\<close> as the spec describes it: the command lines run
  one by one, and \<^verbatim>\<open>npm init -y\<close> leaves the \<^verbatim>\<open>package.json\<close>.
\<close>

definition sampleExecSync :: "string \<Rightarrow> string \<Rightarrow> host \<Rightarrow> error option \<times> host" where
  "sampleExecSync line cwd h =
     (None, if line = ''npm init -y''
            then h\<lparr>fs := (fs h)(path_join [cwd, ''package.json''] \<mapsto> File ''{}'')\<rparr>
            else h)"

definition sampleImportsSeq :: imported where
  "sampleImportsSeq =
     sampleImports\<lparr>executeCommands :=
       (\<lambda>cwd cmds h. fst (executeCommands_spec sampleExecSync cwd cmds h))\<rparr>"

text \<open>
  The same instance with the parser and the printer of the section on JSON texts, and two
  texts of a \<^verbatim>\<open>package.json\<close>: one as \<^verbatim>\<open>npm init\<close> would leave it, with a build script, and one
  with a repeated name and an array index among its names, with the text that the patch step
  writes for it.
\<close>

definition sampleImportsJSON :: imported where
  "sampleImportsJSON = sampleImports\<lparr>JSON_parse := parseJSON, JSON_stringify := stringifyJSON\<rparr>"

definition initPackageJSON :: string where
  \<open>initPackageJSON =
     ''{"name":"app","scripts":{"build":"tsc","test":"echo no test specified && exit 1"}}''\<close>

definition unorderedPackageJSON :: string where
  \<open>unorderedPackageJSON = ''{"name":"a","b":"x","1":"y","name":"b"}''\<close>

definition rewrittenPackageJSON :: string where
  \<open>rewrittenPackageJSON =
     ''{\<newline>  "1": "y",\<newline>  "name": "b",\<newline>  "b": "x",\<newline>  "scripts": {\<newline>    "test:e2e": "playwright test"\<newline>  }\<newline>}\<newline>''\<close>

definition sampleAssets :: "string \<Rightarrow> entry option" where
  "sampleAssets =
     [''/pkg/assets/playwright.config.ts'' \<mapsto> File ''config'',
      ''/pkg/assets/example.spec.ts'' \<mapsto> File ''example'',
      ''/pkg/assets/github-actions.yml'' \<mapsto> File ''workflow'']"

definition sampleGenerator :: Generator where
  "sampleGenerator = \<lparr>rootDir = ''/proj'', packageManager = npm\<rparr>"

definition sampleWorld :: world where
  "sampleWorld = \<lparr>host = \<lparr>fs = sampleAssets, TEST_OPTIONS = None\<rparr>, trace = []\<rparr>"

definition withFile :: "world \<Rightarrow> string \<Rightarrow> string \<Rightarrow> world" where
  "withFile w p text = w\<lparr>host := (host w)\<lparr>fs := (fs (host w))(p \<mapsto> File text)\<rparr>\<rparr>"

definition lines_of :: "string \<Rightarrow> string list" where
  "lines_of text = split_on CHR ''\<newline>'' text"

section \<open>Lemmas and theorems\<close>

subsection \<open>Evaluation of the monad and of sample paths\<close>

lemmas io_defs = return_def bindIO_def fromHost_def onHost_def emit_def

lemma join_proj_gitignore: "path_join [''/proj'', ''.gitignore''] = ''/proj/.gitignore''"
  by code_simp

lemma join_proj_package: "path_join [''/proj'', ''package.json''] = ''/proj/package.json''"
  by code_simp

subsection \<open>Substrings and trailing white space\<close>

lemma str_includes_iff: "str_includes s t \<longleftrightarrow> (\<exists>p q. s = p @ t @ q)"
proof (induction s)
  case Nil
  then show ?case by auto
next
  case (Cons c cs)
  show ?case
  proof
    assume "str_includes (c # cs) t"
    then consider "prefix t (c # cs)" | "str_includes cs t" by auto
    then show "\<exists>p q. c # cs = p @ t @ q"
    proof cases
      case 1
      then obtain q where "c # cs = t @ q" by (auto simp: prefix_def)
      then have "c # cs = [] @ t @ q" by simp
      then show ?thesis by blast
    next
      case 2
      with Cons.IH obtain p q where "cs = p @ t @ q" by blast
      then have "c # cs = (c # p) @ t @ q" by simp
      then show ?thesis by blast
    qed
  next
    assume "\<exists>p q. c # cs = p @ t @ q"
    then obtain p q where pq: "c # cs = p @ t @ q" by blast
    show "str_includes (c # cs) t"
    proof (cases p)
      case Nil
      with pq have "prefix t (c # cs)" by (simp add: prefix_def)
      then show ?thesis by simp
    next
      case (Cons a p')
      with pq have "cs = p' @ t @ q" by simp
      with Cons.IH have "str_includes cs t" by blast
      then show ?thesis by simp
    qed
  qed
qed

lemma str_includes_append_left:
  assumes "str_includes s t"
  shows "str_includes (s @ r) t"
proof -
  from assms obtain p q where "s = p @ t @ q" by (auto simp: str_includes_iff)
  then have "s @ r = p @ t @ (q @ r)" by simp
  then show ?thesis unfolding str_includes_iff by blast
qed

lemma str_includes_append_right:
  assumes "str_includes r t"
  shows "str_includes (s @ r) t"
proof -
  from assms obtain p q where "r = p @ t @ q" by (auto simp: str_includes_iff)
  then have "s @ r = (s @ p) @ t @ q" by simp
  then show ?thesis unfolding str_includes_iff by blast
qed

lemma trimEnd_decomp: "\<exists>ws. s = trimEnd s @ ws \<and> (\<forall>c \<in> set ws. isWhiteSpace c)"
proof -
  have "rev s = takeWhile isWhiteSpace (rev s) @ dropWhile isWhiteSpace (rev s)" by simp
  then have "s = rev (dropWhile isWhiteSpace (rev s)) @ rev (takeWhile isWhiteSpace (rev s))"
    by (metis rev_append rev_rev_ident)
  moreover have "\<forall>c \<in> set (rev (takeWhile isWhiteSpace (rev s))). isWhiteSpace c"
    by (auto dest: set_takeWhileD)
  ultimately show ?thesis unfolding trimEnd_def by blast
qed

text \<open>An occurrence of a text without white space ends before a white tail begins.\<close>

lemma occurrence_before_space:
  assumes eq: "p @ t @ q = s @ ws" and ws: "\<forall>c \<in> set ws. isWhiteSpace c"
    and t: "\<forall>c \<in> set t. \<not> isWhiteSpace c" and ne: "t \<noteq> []"
  shows "\<exists>q'. s = p @ t @ q'"
proof -
  from eq have "(p @ t) @ q = s @ ws" by simp
  then obtain v where v: "(p @ t = s @ v \<and> v @ q = ws) \<or> ((p @ t) @ v = s \<and> q = v @ ws)"
    unfolding append_eq_append_conv2 by blast
  then show ?thesis
  proof
    assume a: "p @ t = s @ v \<and> v @ q = ws"
    have "v = []"
    proof (rule ccontr)
      assume "v \<noteq> []"
      with a have "last (p @ t) = last v" by simp
      with ne have "last t = last v" by simp
      moreover have "last t \<in> set t" using ne by simp
      moreover have "last v \<in> set ws" using a \<open>v \<noteq> []\<close> by auto
      ultimately show False using ws t by metis
    qed
    with a have "s = p @ t @ []" by simp
    then show ?thesis by blast
  next
    assume "(p @ t) @ v = s \<and> q = v @ ws"
    then have "s = p @ t @ v" by simp
    then show ?thesis by blast
  qed
qed

lemma str_includes_trimEnd:
  assumes "\<forall>c \<in> set t. \<not> isWhiteSpace c" and "t \<noteq> []"
  shows "str_includes (trimEnd s) t \<longleftrightarrow> str_includes s t"
proof -
  obtain ws where d: "s = trimEnd s @ ws" "\<forall>c \<in> set ws. isWhiteSpace c"
    using trimEnd_decomp by blast
  show ?thesis
  proof
    assume "str_includes (trimEnd s) t"
    then have "str_includes (trimEnd s @ ws) t" by (rule str_includes_append_left)
    with d(1) show "str_includes s t" by simp
  next
    assume "str_includes s t"
    then obtain p q where "s = p @ t @ q" by (auto simp: str_includes_iff)
    with d(1) have "p @ t @ q = trimEnd s @ ws" by simp
    from occurrence_before_space [OF this d(2) assms]
    show "str_includes (trimEnd s) t" by (auto simp: str_includes_iff)
  qed
qed

lemma str_includes_snoc_space:
  assumes "\<forall>c \<in> set t. \<not> isWhiteSpace c" and "t \<noteq> []" and "\<forall>c \<in> set ws. isWhiteSpace c"
  shows "str_includes (s @ ws) t \<longleftrightarrow> str_includes s t"
proof
  assume "str_includes (s @ ws) t"
  then obtain p q where "p @ t @ q = s @ ws" by (auto simp: str_includes_iff)
  from occurrence_before_space [OF this assms(3) assms(1,2)]
  show "str_includes s t" by (auto simp: str_includes_iff)
next
  assume "str_includes s t"
  then show "str_includes (s @ ws) t" by (rule str_includes_append_left)
qed

lemma includes_node_modules_trim:
  "str_includes (trimEnd s @ ''\<newline>'') ''node_modules'' \<longleftrightarrow> str_includes s ''node_modules''"
proof -
  have "str_includes (trimEnd s @ ''\<newline>'') ''node_modules'' \<longleftrightarrow> str_includes (trimEnd s) ''node_modules''"
    by (rule str_includes_snoc_space) (simp_all add: isWhiteSpace_def)
  also have "\<dots> \<longleftrightarrow> str_includes s ''node_modules''"
    by (rule str_includes_trimEnd) (simp_all add: isWhiteSpace_def)
  finally show ?thesis .
qed

lemma trimEnd_snoc: "\<not> isWhiteSpace c \<Longrightarrow> trimEnd (s @ [c]) = s @ [c]"
  by (simp add: trimEnd_def)

lemma trimEnd_snoc_space: "isWhiteSpace c \<Longrightarrow> trimEnd (s @ [c]) = trimEnd s"
  by (simp add: trimEnd_def)

lemma trimEnd_test_results: "trimEnd (s @ ''test-results/\<newline>'') = s @ ''test-results/''"
proof -
  have "trimEnd ((s @ ''test-results/'') @ ''\<newline>'') = trimEnd (s @ ''test-results/'')"
    by (rule trimEnd_snoc_space) (simp add: isWhiteSpace_def)
  also have "\<dots> = trimEnd ((s @ ''test-results'') @ ''/'')" by simp
  also have "\<dots> = (s @ ''test-results'') @ ''/''"
    by (rule trimEnd_snoc) (simp add: isWhiteSpace_def)
  finally show ?thesis by simp
qed

subsection \<open>The .gitignore build step\<close>

lemma buildGitIgnore_eval:
  "buildGitIgnore g w =
     (case fs (host w) (path_join [rootDir g, ''.gitignore'']) of
        None \<Rightarrow> (Inr ''node_modules/\<newline>test-results/\<newline>'', w)
      | Some Dir \<Rightarrow> (Inl (EISDIR (path_join [rootDir g, ''.gitignore''])), w)
      | Some (File text) \<Rightarrow>
          (Inr (trimEnd text @ ''\<newline>'' @
                (if str_includes text ''node_modules'' then [] else ''node_modules/\<newline>'') @
                ''test-results/\<newline>''), w))"
  by (simp add: buildGitIgnore_def io_defs existsSync_def readFileSync_def
      includes_node_modules_trim split: option.splits entry.splits)

lemma buildGitIgnore_shape:
  assumes "fst (buildGitIgnore g w) = Inr built"
  shows "\<exists>x. built = x @ ''test-results/\<newline>'' \<and> str_includes x ''node_modules''"
proof (cases "fs (host w) (path_join [rootDir g, ''.gitignore''])")
  case None
  with assms have "built = ''node_modules/\<newline>'' @ ''test-results/\<newline>''"
    by (simp add: buildGitIgnore_eval)
  moreover have "str_includes ''node_modules/\<newline>'' ''node_modules''" by simp
  ultimately show ?thesis by blast
next
  case (Some e)
  show ?thesis
  proof (cases e)
    case Dir
    with Some assms show ?thesis by (simp add: buildGitIgnore_eval)
  next
    case (File body)
    show ?thesis
    proof (cases "str_includes body ''node_modules''")
      case True
      with Some File assms have "built = (trimEnd body @ ''\<newline>'') @ ''test-results/\<newline>''"
        by (simp add: buildGitIgnore_eval)
      moreover have "str_includes (trimEnd body @ ''\<newline>'') ''node_modules''"
        using True by (simp only: includes_node_modules_trim)
      ultimately show ?thesis by blast
    next
      case False
      with Some File assms
      have "built = (trimEnd body @ ''\<newline>'' @ ''node_modules/\<newline>'') @ ''test-results/\<newline>''"
        by (simp add: buildGitIgnore_eval)
      moreover have "str_includes ''node_modules/\<newline>'' ''node_modules''" by simp
      then have "str_includes (trimEnd body @ ''\<newline>'' @ ''node_modules/\<newline>'') ''node_modules''"
        by (metis str_includes_append_right)
      ultimately show ?thesis by blast
    qed
  qed
qed

text \<open>
  Claim C2. Building the \<^verbatim>\<open>.gitignore\<close> again from the text of an earlier build: the claim
  is that no ignored path is appended a second time. The step guards only \<^verbatim>\<open>node_modules\<close>;
  the entry \<^verbatim>\<open>test-results/\<close> is appended on every run, so the second build is the first
  one followed by one more \<^verbatim>\<open>test-results/\<close> line.
\<close>

theorem buildGitIgnore_rerun:
  assumes "fst (buildGitIgnore g w) = Inr built"
    and "fs (host w2) (path_join [rootDir g, ''.gitignore'']) = Some (File built)"
  shows "fst (buildGitIgnore g w2) = Inr (built @ ''test-results/\<newline>'')"
proof -
  from buildGitIgnore_shape [OF assms(1)]
  obtain x where x: "built = x @ ''test-results/\<newline>''" "str_includes x ''node_modules''"
    by blast
  have "trimEnd built @ ''\<newline>'' = built"
    unfolding x(1) trimEnd_test_results by simp
  moreover have "str_includes built ''node_modules''"
    unfolding x(1) using x(2) by (rule str_includes_append_left)
  ultimately show ?thesis using assms(2) by (simp add: buildGitIgnore_eval)
qed

lemma sample_no_gitignore: "fs (host sampleWorld) ''/proj/.gitignore'' = None"
  by (simp add: sampleWorld_def sampleAssets_def)

text \<open>
  From no \<^verbatim>\<open>.gitignore\<close> the first build has both entries once; the build from that text has
  \<^verbatim>\<open>test-results/\<close> twice.
\<close>

theorem buildGitIgnore_rerun_witness:
  "fst (buildGitIgnore sampleGenerator sampleWorld) = Inr ''node_modules/\<newline>test-results/\<newline>'' \<and>
   fst (buildGitIgnore sampleGenerator
         (withFile sampleWorld ''/proj/.gitignore'' ''node_modules/\<newline>test-results/\<newline>''))
     = Inr ''node_modules/\<newline>test-results/\<newline>test-results/\<newline>''"
proof -
  have a: "fst (buildGitIgnore sampleGenerator sampleWorld) = Inr ''node_modules/\<newline>test-results/\<newline>''"
    by (simp add: buildGitIgnore_eval sampleGenerator_def join_proj_gitignore sample_no_gitignore)
  have b: "fs (host (withFile sampleWorld ''/proj/.gitignore'' ''node_modules/\<newline>test-results/\<newline>''))
             (path_join [rootDir sampleGenerator, ''.gitignore''])
           = Some (File ''node_modules/\<newline>test-results/\<newline>'')"
    by (simp add: withFile_def sampleGenerator_def join_proj_gitignore)
  from buildGitIgnore_rerun [OF a b] a show ?thesis by simp
qed

text \<open>
  Claim C10, as amended. The built \<^verbatim>\<open>.gitignore\<close> is the existing text with trailing white
  space trimmed and one newline appended, followed by the line \<^verbatim>\<open>node_modules/\<close> exactly when
  the existing text does not contain \<^verbatim>\<open>node_modules\<close>, followed by \<^verbatim>\<open>test-results/\<close> and a
  newline. Without a \<^verbatim>\<open>.gitignore\<close> the result is the two entries, and a directory of that
  name makes the read fail. The world is left as it was.
\<close>

theorem buildGitIgnore_content:
  "buildGitIgnore g w =
     (case fs (host w) (path_join [rootDir g, ''.gitignore'']) of
        None \<Rightarrow> (Inr ''node_modules/\<newline>test-results/\<newline>'', w)
      | Some Dir \<Rightarrow> (Inl (EISDIR (path_join [rootDir g, ''.gitignore''])), w)
      | Some (File text) \<Rightarrow>
          (Inr (trimEnd text @ ''\<newline>'' @
                (if str_includes text ''node_modules'' then [] else ''node_modules/\<newline>'') @
                ''test-results/\<newline>''), w))"
  by (rule buildGitIgnore_eval)

text \<open>An existing file with a white tail and without \<^verbatim>\<open>node_modules\<close>.\<close>

theorem buildGitIgnore_content_witness:
  "buildGitIgnore sampleGenerator (withFile sampleWorld ''/proj/.gitignore'' ''dist/  \<newline>\<newline>'')
     = (Inr ''dist/\<newline>node_modules/\<newline>test-results/\<newline>'',
        withFile sampleWorld ''/proj/.gitignore'' ''dist/  \<newline>\<newline>'')"
  using buildGitIgnore_content [of sampleGenerator "withFile sampleWorld ''/proj/.gitignore'' ''dist/  \<newline>\<newline>''"]
  by (simp add: withFile_def sampleGenerator_def join_proj_gitignore trimEnd_def isWhiteSpace_def)

text \<open>
  Claim C10 as stated says that the result contains the line \<^verbatim>\<open>node_modules/\<close> only if the
  existing text did not contain \<^verbatim>\<open>node_modules\<close>. An existing \<^verbatim>\<open>node_modules/\<close> stays in the
  result: the line is there although the existing text contained the substring.
\<close>

theorem buildGitIgnore_line_counterexample:
  "fst (buildGitIgnore sampleGenerator (withFile sampleWorld ''/proj/.gitignore'' ''node_modules/''))
     = Inr ''node_modules/\<newline>test-results/\<newline>'' \<and>
   ''node_modules/'' \<in> set (lines_of ''node_modules/\<newline>test-results/\<newline>'') \<and>
   str_includes ''node_modules/'' ''node_modules''"
  by (simp add: buildGitIgnore_eval withFile_def sampleGenerator_def join_proj_gitignore
      trimEnd_def isWhiteSpace_def lines_of_def)


subsection \<open>Property lists\<close>

lemma map_of_setEntry: "map_of (setEntry ps k x) k' = (if k' = k then Some x else map_of ps k')"
  by (induction ps) auto

lemma setEntry_twice: "setEntry (setEntry ps k x) k y = setEntry ps k y"
  by (induction ps) auto

lemma map_of_deleteEntry:
  "map_of (deleteEntry ps k) k' = (if k' = k then None else map_of ps k')"
  by (induction ps) (auto simp: deleteEntry_def)

lemma map_of_jsonValue:
  "map_of (map (map_prod id jsonValue) ps) k = map_option jsonValue (map_of ps k)"
  by (induction ps) auto

subsection \<open>The patch of the parsed package.json\<close>


lemma optIncludes_Inr: "optIncludes t ''no test specified'' = Inr b \<Longrightarrow> b = testRemoved t"
  by (cases "(t, ''no test specified'')" rule: optIncludes.cases)
     (auto simp: testRemoved_def split: option.splits)

lemma patchScripts_falsy:
  assumes "\<not> truthy (map_of ps ''scripts'')"
  shows "patchScripts (JObj ps)
         = Inr (JObj (setEntry ps ''scripts'' (JObj [(''test:e2e'', JStr ''playwright test'')])))"
  using assms
  by (simp add: patchScripts_def bindE_def map_of_setEntry setEntry_twice
      PACKAGE_JSON_TEST_SCRIPT_CMD_def)

lemma patchScripts_object:
  assumes "map_of ps ''scripts'' = Some (JObj ss)"
  shows "patchScripts (JObj ps) =
           bindE (optIncludes (map_of ss ''test'') ''no test specified'') (\<lambda>b.
             Inr (JObj (setEntry ps ''scripts''
                    (JObj (setEntry (if b then deleteEntry ss ''test'' else ss)
                             ''test:e2e'' (JStr ''playwright test''))))))"
  using assms
  by (simp add: patchScripts_def bindE_def PACKAGE_JSON_TEST_SCRIPT_CMD_def
      split: sum.splits)

lemma patchScripts_array:
  assumes "map_of ps ''scripts'' = Some (JArr xs es)"
  shows "patchScripts (JObj ps) =
           bindE (optIncludes (map_of es ''test'') ''no test specified'') (\<lambda>b.
             Inr (JObj (setEntry ps ''scripts''
                    (JArr xs (setEntry (if b then deleteEntry es ''test'' else es)
                             ''test:e2e'' (JStr ''playwright test''))))))"
  using assms
  by (simp add: patchScripts_def bindE_def PACKAGE_JSON_TEST_SCRIPT_CMD_def
      split: sum.splits)

lemma patchScripts_primitive:
  assumes "map_of ps ''scripts'' = Some v" and "truthy (Some v)"
    and "\<forall>ss. v \<noteq> JObj ss" and "\<forall>xs es. v \<noteq> JArr xs es"
  shows "patchScripts (JObj ps) = Inl TypeError"
  using assms
  by (cases v) (simp_all add: patchScripts_def bindE_def PACKAGE_JSON_TEST_SCRIPT_CMD_def)

lemma patchScripts_top_array:
  "patchScripts (JArr xs es) = Inr patched \<Longrightarrow> \<exists>es'. patched = JArr xs es'"
  by (auto simp: patchScripts_def bindE_def map_of_setEntry PACKAGE_JSON_TEST_SCRIPT_CMD_def
      split: if_splits sum.splits option.splits)


lemma patchPackageJSON_trace:
  assumes "fs (host w) (path_join [rootDir g, ''package.json'']) = Some (File content)"
    and "JSON_parse U content = Inr packageJSON"
    and "patchScripts packageJSON = Inr patched"
  shows "trace (snd (patchPackageJSON U g w)) =
           trace w @ [CreateFiles (rootDir g)
             [(''package.json'', JSON_stringify U (jsonValue patched) @ ''\<newline>'')] (Some True)]"
  using assms
  by (simp add: patchPackageJSON_def io_defs readFileSync_def split: prod.splits option.splits)

lemma patchScripts_scripts:
  assumes "patchScripts (JObj ps) = Inr patched"
    and "\<forall>xs es. map_of ps ''scripts'' \<noteq> Some (JArr xs es)"
  shows "\<exists>ps' ss. patched = JObj ps' \<and> map_of ps' ''scripts'' = Some (JObj ss) \<and>
           map_of ss ''test:e2e'' = Some (JStr ''playwright test'')"
proof (cases "truthy (map_of ps ''scripts'')")
  case False
  from patchScripts_falsy [OF False] assms(1) show ?thesis
    by (auto simp: map_of_setEntry)
next
  case True
  then obtain v where v: "map_of ps ''scripts'' = Some v" by (cases "map_of ps ''scripts''") auto
  show ?thesis
  proof (cases "\<exists>ss. v = JObj ss")
    case True
    then obtain ss where "map_of ps ''scripts'' = Some (JObj ss)" using v by blast
    from patchScripts_object [OF this] assms(1) show ?thesis
      by (auto simp: bindE_def map_of_setEntry split: sum.splits)
  next
    case False
    moreover have "\<forall>xs es. v \<noteq> JArr xs es" using assms(2) v by simp
    ultimately have "patchScripts (JObj ps) = Inl TypeError"
      using patchScripts_primitive [OF v] True v by simp
    with assms(1) show ?thesis by simp
  qed
qed

text \<open>
  Claim C7, as amended. When \<^verbatim>\<open>package.json\<close> parses to an object whose \<^verbatim>\<open>scripts\<close> member is
  missing, falsy or an object, and the patch completes, the document handed to \<^verbatim>\<open>JSON.stringify\<close> has a
  \<^verbatim>\<open>scripts\<close> object that maps \<^verbatim>\<open>test:e2e\<close> to \<^verbatim>\<open>playwright test\<close>, and the step passes its
  text, with a newline, to \<^verbatim>\<open>createFiles\<close> as \<^verbatim>\<open>package.json\<close>. A missing or falsy
  \<^verbatim>\<open>scripts\<close> member is replaced by a new object.
\<close>

theorem patchPackageJSON_test_script:
  assumes "fs (host w) (path_join [rootDir g, ''package.json'']) = Some (File content)"
    and "JSON_parse U content = Inr (JObj ps)"
    and "\<not> truthy (map_of ps ''scripts'') \<or> (\<exists>ss. map_of ps ''scripts'' = Some (JObj ss))"
    and "patchScripts (JObj ps) = Inr patched"
  shows "\<exists>ss. getProp (Some (jsonValue patched)) ''scripts'' = Inr (Some (JObj ss)) \<and>
           map_of ss PACKAGE_JSON_TEST_SCRIPT_CMD = Some (JStr ''playwright test'') \<and>
           trace (snd (patchPackageJSON U g w)) =
             trace w @ [CreateFiles (rootDir g)
               [(''package.json'', JSON_stringify U (jsonValue patched) @ ''\<newline>'')] (Some True)]"
proof -
  from assms(3) have "\<forall>xs es. map_of ps ''scripts'' \<noteq> Some (JArr xs es)" by auto
  from patchScripts_scripts [OF assms(4) this]
  obtain ps' ss where p: "patched = JObj ps'" "map_of ps' ''scripts'' = Some (JObj ss)"
    "map_of ss ''test:e2e'' = Some (JStr ''playwright test'')" by blast
  have "getProp (Some (jsonValue patched)) ''scripts''
          = Inr (Some (JObj (map (map_prod id jsonValue) ss)))"
    using p(1,2) by (simp add: map_of_jsonValue)
  moreover have "map_of (map (map_prod id jsonValue) ss) PACKAGE_JSON_TEST_SCRIPT_CMD
          = Some (JStr ''playwright test'')"
    using p(3) by (simp add: map_of_jsonValue PACKAGE_JSON_TEST_SCRIPT_CMD_def)
  ultimately show ?thesis
    using patchPackageJSON_trace [OF assms(1,2,4)] by blast
qed

text \<open>
  The \<^verbatim>\<open>package.json\<close> that holds the empty object.
\<close>

theorem patchPackageJSON_test_script_witness:
  "\<exists>ss. getProp (Some (JObj [(''scripts'', JObj [(''test:e2e'', JStr ''playwright test'')])]))
            ''scripts'' = Inr (Some (JObj ss)) \<and>
        map_of ss PACKAGE_JSON_TEST_SCRIPT_CMD = Some (JStr ''playwright test'') \<and>
        trace (snd (patchPackageJSON sampleImports sampleGenerator
                      (withFile sampleWorld ''/proj/package.json'' ''{}'')))
          = [CreateFiles ''/proj'' [(''package.json'', sampleJSON @ ''\<newline>'')] (Some True)]"
proof -
  have a: "fs (host (withFile sampleWorld ''/proj/package.json'' ''{}''))
             (path_join [rootDir sampleGenerator, ''package.json'']) = Some (File ''{}'')"
    by (simp add: withFile_def sampleGenerator_def join_proj_package)
  have b: "JSON_parse sampleImports ''{}'' = Inr (JObj [])"
    by (simp add: sampleImports_def)
  have c: "\<not> truthy (map_of ([] :: (string \<times> js) list) ''scripts'') \<or>
           (\<exists>ss. map_of ([] :: (string \<times> js) list) ''scripts'' = Some (JObj ss))"
    by simp
  have d: "patchScripts (JObj [])
             = Inr (JObj [(''scripts'', JObj [(''test:e2e'', JStr ''playwright test'')])])"
    by (simp add: patchScripts_def bindE_def PACKAGE_JSON_TEST_SCRIPT_CMD_def)
  from patchPackageJSON_test_script [OF a b c d] show ?thesis
    by (simp add: sampleImports_def sampleGenerator_def sampleWorld_def withFile_def)
qed

text \<open>
  Claim C7 as stated covers every input. With \<^verbatim>\<open>{"scripts": []}\<close> the assignment stores
  \<^verbatim>\<open>test:e2e\<close> as a named property of the array, which \<^verbatim>\<open>JSON.stringify\<close> does not
  serialise: the written \<^verbatim>\<open>scripts\<close> is still the empty array.
\<close>

theorem patchScripts_array_counterexample:
  "patchScripts (JObj [(''scripts'', JArr [] [])])
     = Inr (JObj [(''scripts'', JArr [] [(''test:e2e'', JStr ''playwright test'')])]) \<and>
   jsonValue (JObj [(''scripts'', JArr [] [(''test:e2e'', JStr ''playwright test'')])])
     = JObj [(''scripts'', JArr [] [])]"
  by (simp add: patchScripts_def bindE_def PACKAGE_JSON_TEST_SCRIPT_CMD_def)


lemma filter_setEntry_scripts:
  "filter (\<lambda>p. fst p \<noteq> ''scripts'') (setEntry ps ''scripts'' x)
     = filter (\<lambda>p. fst p \<noteq> ''scripts'') ps"
  by (induction ps) auto

lemma filter_setEntry_e2e:
  "filter (\<lambda>p. fst p \<noteq> ''test'' \<and> fst p \<noteq> ''test:e2e'') (setEntry ss ''test:e2e'' x)
     = filter (\<lambda>p. fst p \<noteq> ''test'' \<and> fst p \<noteq> ''test:e2e'') ss"
  by (induction ss) auto

lemma filter_deleteEntry_test:
  "filter (\<lambda>p. fst p \<noteq> ''test'' \<and> fst p \<noteq> ''test:e2e'') (deleteEntry ss ''test'')
     = filter (\<lambda>p. fst p \<noteq> ''test'' \<and> fst p \<noteq> ''test:e2e'') ss"
  by (induction ss) (auto simp: deleteEntry_def)

lemma patchScripts_frame_object:
  assumes "patchScripts (JObj ps) = Inr patched"
  shows "\<exists>ps'. patched = JObj ps' \<and>
           filter (\<lambda>p. fst p \<noteq> ''scripts'') ps' = filter (\<lambda>p. fst p \<noteq> ''scripts'') ps \<and>
           (case map_of ps ''scripts'' of
              Some (JObj ss) \<Rightarrow>
                (\<exists>ss'. map_of ps' ''scripts'' = Some (JObj ss') \<and>
                   filter (\<lambda>p. fst p \<noteq> ''test'' \<and> fst p \<noteq> ''test:e2e'') ss'
                     = filter (\<lambda>p. fst p \<noteq> ''test'' \<and> fst p \<noteq> ''test:e2e'') ss \<and>
                   map_of ss' ''test''
                     = (if testRemoved (map_of ss ''test'') then None else map_of ss ''test''))
            | Some (JArr xs es) \<Rightarrow>
                map_option jsonValue (map_of ps' ''scripts'') = Some (jsonValue (JArr xs es))
            | _ \<Rightarrow> map_of ps' ''scripts'' = Some (JObj [(''test:e2e'', JStr ''playwright test'')]))"
proof (cases "truthy (map_of ps ''scripts'')")
  case False
  from patchScripts_falsy [OF False] assms
  have "patched = JObj (setEntry ps ''scripts'' (JObj [(''test:e2e'', JStr ''playwright test'')]))"
    by simp
  moreover from False have "\<forall>ss. map_of ps ''scripts'' \<noteq> Some (JObj ss)"
    and "\<forall>xs es. map_of ps ''scripts'' \<noteq> Some (JArr xs es)" by auto
  ultimately show ?thesis
    by (auto simp: filter_setEntry_scripts map_of_setEntry split: option.splits js.splits)
next
  case True
  then obtain v where v: "map_of ps ''scripts'' = Some v" by (cases "map_of ps ''scripts''") auto
  show ?thesis
  proof (cases v)
    case (JObj ss)
    with v have s: "map_of ps ''scripts'' = Some (JObj ss)" by simp
    from patchScripts_object [OF s] assms
    obtain b where b: "optIncludes (map_of ss ''test'') ''no test specified'' = Inr b"
      and r: "patched = JObj (setEntry ps ''scripts''
                (JObj (setEntry (if b then deleteEntry ss ''test'' else ss)
                         ''test:e2e'' (JStr ''playwright test''))))"
      by (auto simp: bindE_def split: sum.splits)
    from optIncludes_Inr [OF b] have b': "b = testRemoved (map_of ss ''test'')" .
    show ?thesis unfolding r using s b'
      by (simp add: filter_setEntry_scripts map_of_setEntry filter_setEntry_e2e
          filter_deleteEntry_test map_of_deleteEntry)
  next
    case (JArr xs es)
    with v have s: "map_of ps ''scripts'' = Some (JArr xs es)" by simp
    from patchScripts_array [OF s] assms
    obtain b where r: "patched = JObj (setEntry ps ''scripts''
                (JArr xs (setEntry (if b then deleteEntry es ''test'' else es)
                         ''test:e2e'' (JStr ''playwright test''))))"
      by (auto simp: bindE_def split: sum.splits)
    show ?thesis unfolding r using s
      by (simp add: filter_setEntry_scripts map_of_setEntry)
  next
    case JNull
    with v True show ?thesis by simp
  next
    case (JBool x)
    with patchScripts_primitive [OF v] True v assms show ?thesis by simp
  next
    case (JNum x)
    with patchScripts_primitive [OF v] True v assms show ?thesis by simp
  next
    case (JStr x)
    with patchScripts_primitive [OF v] True v assms show ?thesis by simp
  qed
qed

lemma patchScripts_frame_array:
  assumes "patchScripts (JArr xs es) = Inr patched"
  shows "jsonValue patched = jsonValue (JArr xs es)"
  using patchScripts_top_array [OF assms] by auto

lemma patchScripts_frame_primitive:
  "(\<forall>ps. v \<noteq> JObj ps) \<Longrightarrow> (\<forall>xs es. v \<noteq> JArr xs es) \<Longrightarrow> patchScripts v = Inl TypeError"
  by (cases v) (simp_all add: patchScripts_def bindE_def)

lemma patchScripts_frame_cases:
  assumes "patchScripts packageJSON = Inr patched"
  shows "case packageJSON of
           JObj ps \<Rightarrow>
             (\<exists>ps'. patched = JObj ps' \<and>
               filter (\<lambda>p. fst p \<noteq> ''scripts'') ps' = filter (\<lambda>p. fst p \<noteq> ''scripts'') ps \<and>
               (case map_of ps ''scripts'' of
                  Some (JObj ss) \<Rightarrow>
                    (\<exists>ss'. map_of ps' ''scripts'' = Some (JObj ss') \<and>
                       filter (\<lambda>p. fst p \<noteq> ''test'' \<and> fst p \<noteq> ''test:e2e'') ss'
                         = filter (\<lambda>p. fst p \<noteq> ''test'' \<and> fst p \<noteq> ''test:e2e'') ss \<and>
                       map_of ss' ''test''
                         = (if testRemoved (map_of ss ''test'') then None else map_of ss ''test''))
                | Some (JArr xs es) \<Rightarrow>
                    map_option jsonValue (map_of ps' ''scripts'') = Some (jsonValue (JArr xs es))
                | _ \<Rightarrow> map_of ps' ''scripts'' = Some (JObj [(''test:e2e'', JStr ''playwright test'')])))
         | JArr xs es \<Rightarrow> jsonValue patched = jsonValue packageJSON
         | _ \<Rightarrow> False"
proof (cases packageJSON)
  case (JObj ps)
  with patchScripts_frame_object [of ps patched] assms show ?thesis by simp
next
  case (JArr xs es)
  with patchScripts_frame_array [of xs es patched] assms show ?thesis by simp
qed (use assms patchScripts_frame_primitive [of packageJSON] in simp_all)

lemma testRemoved_noTestSpecified:
  "testRemoved t \<longleftrightarrow>
     noTestSpecified t \<or> (\<exists>xs es. t = Some (JArr xs es) \<and> JStr ''no test specified'' \<in> set xs)"
  by (auto simp: testRemoved_def noTestSpecified_def split: option.splits js.splits)

lemma patchScripts_frame_strings:
  assumes "patchScripts packageJSON = Inr patched" and "\<not> testIsArray packageJSON"
  shows "case packageJSON of
           JObj ps \<Rightarrow>
             (\<exists>ps'. patched = JObj ps' \<and>
               filter (\<lambda>p. fst p \<noteq> ''scripts'') ps' = filter (\<lambda>p. fst p \<noteq> ''scripts'') ps \<and>
               (case map_of ps ''scripts'' of
                  Some (JObj ss) \<Rightarrow>
                    (\<exists>ss'. map_of ps' ''scripts'' = Some (JObj ss') \<and>
                       filter (\<lambda>p. fst p \<noteq> ''test'' \<and> fst p \<noteq> ''test:e2e'') ss'
                         = filter (\<lambda>p. fst p \<noteq> ''test'' \<and> fst p \<noteq> ''test:e2e'') ss \<and>
                       map_of ss' ''test''
                         = (if noTestSpecified (map_of ss ''test'') then None
                            else map_of ss ''test''))
                | Some (JArr xs es) \<Rightarrow>
                    map_option jsonValue (map_of ps' ''scripts'') = Some (jsonValue (JArr xs es))
                | _ \<Rightarrow> map_of ps' ''scripts'' = Some (JObj [(''test:e2e'', JStr ''playwright test'')])))
         | JArr xs es \<Rightarrow> jsonValue patched = jsonValue packageJSON
         | _ \<Rightarrow> False"
proof (cases packageJSON)
  case (JObj ps)
  show ?thesis
  proof (cases "\<exists>ss. map_of ps ''scripts'' = Some (JObj ss)")
    case True
    then obtain ss where ss: "map_of ps ''scripts'' = Some (JObj ss)" by blast
    with assms(2) JObj have "\<forall>xs es. map_of ss ''test'' \<noteq> Some (JArr xs es)"
      by (auto simp: testIsArray_def)
    then have "testRemoved (map_of ss ''test'') = noTestSpecified (map_of ss ''test'')"
      by (simp add: testRemoved_noTestSpecified)
    with patchScripts_frame_cases [OF assms(1)] JObj ss show ?thesis by simp
  next
    case False
    show ?thesis
    proof (cases "map_of ps ''scripts''")
      case None
      with patchScripts_frame_cases [OF assms(1)] JObj show ?thesis by simp
    next
      case (Some v)
      with False have "\<forall>ss. v \<noteq> JObj ss" by simp
      with patchScripts_frame_cases [OF assms(1)] JObj Some show ?thesis
        by (cases v) simp_all
    qed
  qed
qed (use patchScripts_frame_cases [OF assms(1)] in simp_all)

text \<open>
  Claim C9, as amended. The claim is about the document that the step parses and hands to
  \<^verbatim>\<open>JSON.stringify\<close>, and about the documents whose \<^verbatim>\<open>test\<close> script is not an array. When
  the patch of such a document completes, the step passes the text of the patched document,
  with a newline, to \<^verbatim>\<open>createFiles\<close>, and the patched document differs from the parsed one
  in \<^verbatim>\<open>scripts\<close> only: every top-level member other than \<^verbatim>\<open>scripts\<close> is kept as it is; inside a
  \<^verbatim>\<open>scripts\<close> object every entry other than \<^verbatim>\<open>test\<close> and \<^verbatim>\<open>test:e2e\<close> is kept as it is, and
  \<^verbatim>\<open>test\<close> is removed exactly when its value is a string that contains
  \<^verbatim>\<open>no test specified\<close>. Of a \<^verbatim>\<open>scripts\<close> array, and of a top-level array, what is serialised
  stays the same; any other \<^verbatim>\<open>scripts\<close> member is falsy or missing and is replaced. A
  top-level value that is neither an object nor an array makes the patch throw.
\<close>

theorem patchPackageJSON_frame:
  assumes "fs (host w) (path_join [rootDir g, ''package.json'']) = Some (File content)"
    and "JSON_parse U content = Inr packageJSON"
    and "patchScripts packageJSON = Inr patched"
    and "\<not> testIsArray packageJSON"
  shows "trace (snd (patchPackageJSON U g w)) =
           trace w @ [CreateFiles (rootDir g)
             [(''package.json'', JSON_stringify U (jsonValue patched) @ ''\<newline>'')] (Some True)] \<and>
         (case packageJSON of
           JObj ps \<Rightarrow>
             (\<exists>ps'. patched = JObj ps' \<and>
               filter (\<lambda>p. fst p \<noteq> ''scripts'') ps' = filter (\<lambda>p. fst p \<noteq> ''scripts'') ps \<and>
               (case map_of ps ''scripts'' of
                  Some (JObj ss) \<Rightarrow>
                    (\<exists>ss'. map_of ps' ''scripts'' = Some (JObj ss') \<and>
                       filter (\<lambda>p. fst p \<noteq> ''test'' \<and> fst p \<noteq> ''test:e2e'') ss'
                         = filter (\<lambda>p. fst p \<noteq> ''test'' \<and> fst p \<noteq> ''test:e2e'') ss \<and>
                       map_of ss' ''test''
                         = (if noTestSpecified (map_of ss ''test'') then None
                            else map_of ss ''test''))
                | Some (JArr xs es) \<Rightarrow>
                    map_option jsonValue (map_of ps' ''scripts'') = Some (jsonValue (JArr xs es))
                | _ \<Rightarrow> map_of ps' ''scripts'' = Some (JObj [(''test:e2e'', JStr ''playwright test'')])))
         | JArr xs es \<Rightarrow> jsonValue patched = jsonValue packageJSON
         | _ \<Rightarrow> False)"
  using patchPackageJSON_trace [OF assms(1,2,3)] patchScripts_frame_strings [OF assms(3,4)]
  by (rule conjI)

lemma parse_initPackageJSON:
  "parseJSON initPackageJSON
     = Inr (JObj [(''name'', JStr ''app''),
                  (''scripts'', JObj [(''build'', JStr ''tsc''),
                     (''test'', JStr ''echo no test specified && exit 1'')])])"
  by code_simp

text \<open>
  The \<^verbatim>\<open>package.json\<close> that \<^verbatim>\<open>npm init\<close> leaves, with a build script added, read and written
  through the parser and the printer: \<^verbatim>\<open>name\<close> and \<^verbatim>\<open>build\<close> are kept, \<^verbatim>\<open>test\<close> is removed.
\<close>

theorem patchPackageJSON_frame_witness:
  "trace (snd (patchPackageJSON sampleImportsJSON sampleGenerator
            (withFile sampleWorld ''/proj/package.json'' initPackageJSON))) =
     [CreateFiles ''/proj''
        [(''package.json'',
          stringifyJSON (JObj [(''name'', JStr ''app''),
             (''scripts'', JObj [(''build'', JStr ''tsc''),
                                 (''test:e2e'', JStr ''playwright test'')])]) @ ''\<newline>'')]
        (Some True)] \<and>
   (\<exists>ps'. JObj [(''name'', JStr ''app''),
               (''scripts'', JObj [(''build'', JStr ''tsc''),
                                   (''test:e2e'', JStr ''playwright test'')])] = JObj ps' \<and>
      filter (\<lambda>p. fst p \<noteq> ''scripts'') ps' = [(''name'', JStr ''app'')] \<and>
      (\<exists>ss'. map_of ps' ''scripts'' = Some (JObj ss') \<and>
         filter (\<lambda>p. fst p \<noteq> ''test'' \<and> fst p \<noteq> ''test:e2e'') ss' = [(''build'', JStr ''tsc'')] \<and>
         map_of ss' ''test'' = None))"
proof -
  have a: "fs (host (withFile sampleWorld ''/proj/package.json'' initPackageJSON))
             (path_join [rootDir sampleGenerator, ''package.json''])
           = Some (File initPackageJSON)"
    by (simp add: withFile_def sampleGenerator_def join_proj_package)
  have b: "JSON_parse sampleImportsJSON initPackageJSON
             = Inr (JObj [(''name'', JStr ''app''),
                  (''scripts'', JObj [(''build'', JStr ''tsc''),
                     (''test'', JStr ''echo no test specified && exit 1'')])])"
    by (simp add: sampleImportsJSON_def parse_initPackageJSON)
  have c: "patchScripts (JObj [(''name'', JStr ''app''),
              (''scripts'', JObj [(''build'', JStr ''tsc''),
                 (''test'', JStr ''echo no test specified && exit 1'')])])
           = Inr (JObj [(''name'', JStr ''app''),
                (''scripts'', JObj [(''build'', JStr ''tsc''),
                                    (''test:e2e'', JStr ''playwright test'')])])"
    by (simp add: patchScripts_def bindE_def PACKAGE_JSON_TEST_SCRIPT_CMD_def deleteEntry_def)
  have d: "\<not> testIsArray (JObj [(''name'', JStr ''app''),
              (''scripts'', JObj [(''build'', JStr ''tsc''),
                 (''test'', JStr ''echo no test specified && exit 1'')])])"
    by (simp add: testIsArray_def)
  from patchPackageJSON_frame [OF a b c d] show ?thesis
    by (simp add: noTestSpecified_def sampleImportsJSON_def sampleGenerator_def withFile_def
        sampleWorld_def)
qed

text \<open>
  Claim C9 as stated has every top-level field other than \<^verbatim>\<open>scripts\<close> preserved verbatim, and
  \<^verbatim>\<open>test\<close> removed exactly when its value contains the substring. On the file neither holds
  for every input. A \<^verbatim>\<open>package.json\<close> with the name \<^verbatim>\<open>name\<close> twice and with the name \<^verbatim>\<open>1\<close>
  after \<^verbatim>\<open>b\<close> is written back without the first \<^verbatim>\<open>name\<close> field and with \<^verbatim>\<open>1\<close> in front: the
  step writes the object that \<^verbatim>\<open>JSON.parse\<close> builds, not the fields of the text. And for an
  array the step calls \<^verbatim>\<open>Array.prototype.includes\<close>: the array with the element
  \<^verbatim>\<open>no test specified\<close> is removed, the array whose element only contains that text is kept.
\<close>

theorem patchPackageJSON_verbatim_counterexample:
  "trace (snd (patchPackageJSON sampleImportsJSON sampleGenerator
            (withFile sampleWorld ''/proj/package.json'' unorderedPackageJSON)))
     = [CreateFiles ''/proj'' [(''package.json'', rewrittenPackageJSON)] (Some True)] \<and>
   patchScripts (JObj [(''scripts'', JObj [(''test'', JArr [JStr ''no test specified''] [])])])
     = Inr (JObj [(''scripts'', JObj [(''test:e2e'', JStr ''playwright test'')])]) \<and>
   patchScripts (JObj [(''scripts'', JObj [(''test'', JArr [JStr ''echo no test specified''] [])])])
     = Inr (JObj [(''scripts'', JObj [(''test'', JArr [JStr ''echo no test specified''] []),
                                      (''test:e2e'', JStr ''playwright test'')])])"
  by code_simp

subsection \<open>Paths\<close>

lemma split_on_not_Nil [simp]: "split_on d s \<noteq> []"
  by (induction s) (auto split: list.splits)

lemma split_on_no_sep: "d \<notin> set s \<Longrightarrow> split_on d s = [s]"
  by (induction s) auto

lemma split_on_append:
  "split_on d (xs @ d # ys) = split_on d xs @ split_on d ys"
proof (induction xs)
  case Nil
  then show ?case by simp
next
  case (Cons x xs)
  obtain s ss where "split_on d xs = s # ss" by (cases "split_on d xs") auto
  with Cons show ?case by simp
qed

lemma split_on_segments: "seg \<in> set (split_on d s) \<Longrightarrow> d \<notin> set seg"
proof (induction s arbitrary: seg)
  case Nil
  then show ?case by simp
next
  case (Cons c cs)
  obtain s ss where s: "split_on d cs = s # ss" by (cases "split_on d cs") auto
  show ?case
  proof (cases "c = d")
    case True
    with Cons show ?thesis by auto
  next
    case False
    with Cons.prems s have "seg = c # s \<or> seg \<in> set ss" by simp
    then show ?thesis
    proof
      assume "seg = c # s"
      moreover have "d \<notin> set s" using Cons.IH [of s] s by simp
      ultimately show ?thesis using False by simp
    next
      assume "seg \<in> set ss"
      then show ?thesis using Cons.IH [of seg] s by simp
    qed
  qed
qed

lemma join_sep_split_on: "join_sep (split_on CHR ''/'' s) = s"
proof (induction s)
  case Nil
  then show ?case by simp
next
  case (Cons c cs)
  obtain s ss where s: "split_on CHR ''/'' cs = s # ss" by (cases "split_on CHR ''/'' cs") auto
  show ?case
  proof (cases "c = CHR ''/''")
    case True
    with Cons s show ?thesis by simp
  next
    case False
    with Cons s show ?thesis by (cases ss) auto
  qed
qed

lemma join_sep_snoc:
  "join_sep (segs @ [f]) = (if segs = [] then f else join_sep segs @ ''/'' @ f)"
  by (induction segs rule: join_sep.induct) auto

lemma normalizeSegment_proper:
  assumes "\<forall>s \<in> set res. proper s" and "CHR ''/'' \<notin> set seg"
  shows "\<forall>s \<in> set (normalizeSegment allow res seg). proper s"
  using assms by (auto simp: normalizeSegment_def proper_def dest: in_set_butlastD)

lemma foldl_normalizeSegment_proper:
  assumes "\<forall>s \<in> set res. proper s" and "\<forall>seg \<in> set segs. CHR ''/'' \<notin> set seg"
  shows "\<forall>s \<in> set (foldl (normalizeSegment allow) res segs). proper s"
  using assms
proof (induction segs arbitrary: res)
  case Nil
  then show ?case by simp
next
  case (Cons seg segs)
  have "\<forall>s \<in> set (normalizeSegment allow res seg). proper s"
    using Cons.prems by (intro normalizeSegment_proper) auto
  then show ?case using Cons by simp
qed

lemma join_sep_Cons: "\<exists>r. join_sep (s # ss) = s @ r"
  by (cases ss) auto

lemma isAbsolute_append: "p \<noteq> [] \<Longrightarrow> isAbsolute (p @ q) = isAbsolute p"
  by (cases p) (auto simp: isAbsolute_def)

lemma join_sep_proper_relative:
  assumes "\<forall>s \<in> set segs. proper s"
  shows "\<not> isAbsolute (join_sep segs)"
proof (cases segs)
  case Nil
  then show ?thesis by (simp add: isAbsolute_def)
next
  case (Cons s ss)
  obtain r where r: "join_sep (s # ss) = s @ r" using join_sep_Cons by blast
  from assms Cons have p: "proper s" by simp
  then have "isAbsolute (s @ r) = isAbsolute s" by (intro isAbsolute_append) (simp add: proper_def)
  moreover have "\<not> isAbsolute s" using p by (cases s) (auto simp: proper_def isAbsolute_def)
  ultimately show ?thesis using Cons r by simp
qed

lemma normalizeString_relative: "\<not> isAbsolute (normalizeString p allow)"
  unfolding normalizeString_def
  by (rule join_sep_proper_relative, rule foldl_normalizeSegment_proper)
     (auto dest: split_on_segments)

lemma normalize_isAbsolute: "isAbsolute (path_normalize p) = isAbsolute p"
proof (cases "p = []")
  case True
  then show ?thesis by (simp add: path_normalize_def isAbsolute_def)
next
  case False
  show ?thesis
  proof (cases "isAbsolute p")
    case True
    with False show ?thesis by (simp add: path_normalize_def Let_def isAbsolute_def)
  next
    case rel: False
    have q: "\<not> isAbsolute (normalizeString p True)" by (rule normalizeString_relative)
    show ?thesis
    proof (cases "normalizeString p True = []")
      case True
      with False rel show ?thesis by (simp add: path_normalize_def Let_def isAbsolute_def)
    next
      case nonempty: False
      then have "isAbsolute (normalizeString p True @ (if last p = CHR ''/'' then ''/'' else []))
                 = isAbsolute (normalizeString p True)"
        by (rule isAbsolute_append)
      with False rel nonempty q show ?thesis by (simp add: path_normalize_def Let_def)
    qed
  qed
qed

lemma path_join_isAbsolute:
  assumes "\<not> isAbsolute f" and "f \<noteq> []"
  shows "isAbsolute (path_join [a, f]) = isAbsolute a"
proof (cases "a = []")
  case True
  with assms have "path_join [a, f] = path_normalize f" by (simp add: path_join_def)
  then have "isAbsolute (path_join [a, f]) = isAbsolute f" by (simp add: normalize_isAbsolute)
  with assms True show ?thesis by (simp add: isAbsolute_def)
next
  case False
  with assms have "path_join [a, f] = path_normalize (a @ ''/'' @ f)" by (simp add: path_join_def)
  moreover have "isAbsolute (a @ ''/'' @ f) = isAbsolute a" using False by (rule isAbsolute_append)
  ultimately show ?thesis by (simp add: normalize_isAbsolute)
qed


lemma normalizeSegment_plain:
  "seg \<noteq> [] \<Longrightarrow> seg \<noteq> ''.'' \<Longrightarrow> seg \<noteq> ''..'' \<Longrightarrow> normalizeSegment allow res seg = res @ [seg]"
  by (simp add: normalizeSegment_def)

lemma foldl_normalizeSegment_plain:
  assumes "\<forall>seg \<in> set segs. seg \<noteq> [] \<and> seg \<noteq> ''.'' \<and> seg \<noteq> ''..''"
  shows "foldl (normalizeSegment allow) res segs = res @ segs"
  using assms by (induction segs arbitrary: res) (simp_all add: normalizeSegment_plain)

lemma split_on_file:
  assumes "CHR ''/'' \<notin> set f"
  shows "split_on CHR ''/'' (a @ ''/'' @ f) = split_on CHR ''/'' a @ [f]"
  using assms by (simp add: split_on_append split_on_no_sep)

lemma path_normalize_file:
  assumes f: "CHR ''/'' \<notin> set f" "f \<noteq> []" "f \<noteq> ''.''" "f \<noteq> ''..''"
    and p: "split_on CHR ''/'' p = segs @ [f]" and l: "last p = last f"
  shows "\<exists>res. path_normalize p = (if isAbsolute p then ''/'' else []) @ join_sep (res @ [f])"
proof -
  define res where "res = foldl (normalizeSegment (\<not> isAbsolute p)) [] segs"
  have n: "normalizeString p (\<not> isAbsolute p) = join_sep (res @ [f])"
    using f by (simp add: normalizeString_def p res_def normalizeSegment_plain)
  have ne: "join_sep (res @ [f]) \<noteq> []" using f(2) by (simp add: join_sep_snoc)
  have "p \<noteq> []" using p f(2) by (cases p) auto
  moreover have "last p \<noteq> CHR ''/''" using l f(1,2) last_in_set by metis
  ultimately have "path_normalize p = (if isAbsolute p then ''/'' else []) @ join_sep (res @ [f])"
    using n ne by (simp add: path_normalize_def Let_def)
  then show ?thesis by blast
qed

lemma last_split_on_file:
  assumes "CHR ''/'' \<notin> set f"
  shows "last (split_on CHR ''/'' ((if b then ''/'' else []) @ join_sep (res @ [f]))) = f"
proof (cases "res = []")
  case True
  then show ?thesis using assms
    by (cases b) (simp_all add: split_on_no_sep)
next
  case False
  define x where "x = (if b then ''/'' else []) @ join_sep res"
  have "(if b then ''/'' else []) @ join_sep (res @ [f]) = x @ CHR ''/'' # f"
    using False by (simp add: join_sep_snoc x_def)
  moreover have "split_on CHR ''/'' (x @ CHR ''/'' # f) = split_on CHR ''/'' x @ [f]"
    using assms by (simp add: split_on_append split_on_no_sep)
  ultimately show ?thesis by simp
qed

lemma path_join_arguments:
  assumes "f \<noteq> []"
  shows "path_join [a, f] = path_normalize (if a = [] then f else a @ ''/'' @ f)"
  using assms by (simp add: path_join_def)

lemma path_join_last_segment:
  assumes f: "CHR ''/'' \<notin> set f" "f \<noteq> []" "f \<noteq> ''.''" "f \<noteq> ''..''"
  shows "last (split_on CHR ''/'' (path_join [a, f])) = f"
proof -
  define p where "p = (if a = [] then f else a @ ''/'' @ f)"
  have "\<exists>segs. split_on CHR ''/'' p = segs @ [f]"
  proof (cases "a = []")
    case True
    then have "split_on CHR ''/'' p = [] @ [f]" using f(1) by (simp add: p_def split_on_no_sep)
    then show ?thesis by blast
  next
    case False
    then have "split_on CHR ''/'' p = split_on CHR ''/'' a @ [f]"
      using split_on_file [OF f(1)] by (simp add: p_def)
    then show ?thesis by blast
  qed
  then obtain segs where segs: "split_on CHR ''/'' p = segs @ [f]" by blast
  have "last p = last f" using f(2) by (simp add: p_def)
  from path_normalize_file [OF f segs this]
  obtain res where "path_normalize p = (if isAbsolute p then ''/'' else []) @ join_sep (res @ [f])"
    by blast
  moreover have "path_join [a, f] = path_normalize p"
    unfolding p_def by (rule path_join_arguments [OF f(2)])
  ultimately show ?thesis
    using last_split_on_file [OF f(1), of "isAbsolute p" res] by simp
qed

lemma split_on_absolute: "isAbsolute p \<Longrightarrow> hd (split_on CHR ''/'' p) = []"
  by (cases p) (auto simp: isAbsolute_def)

lemma path_join_plain:
  assumes a: "\<forall>seg \<in> set (split_on CHR ''/'' a). seg \<noteq> [] \<and> seg \<noteq> ''.'' \<and> seg \<noteq> ''..''"
    and f: "CHR ''/'' \<notin> set f" "f \<noteq> []" "f \<noteq> ''.''" "f \<noteq> ''..''"
  shows "path_join [a, f] = a @ ''/'' @ f"
proof -
  define p where "p = a @ ''/'' @ f"
  have ne: "a \<noteq> []"
  proof
    assume "a = []"
    then have "[] \<in> set (split_on CHR ''/'' a)" by simp
    with a show False by blast
  qed
  have segs: "split_on CHR ''/'' p = split_on CHR ''/'' a @ [f]"
    unfolding p_def by (rule split_on_file [OF f(1)])
  have rel: "\<not> isAbsolute p"
  proof
    assume "isAbsolute p"
    then have "hd (split_on CHR ''/'' p) = []" by (rule split_on_absolute)
    then have "hd (split_on CHR ''/'' a) = []" unfolding segs by simp
    moreover have "hd (split_on CHR ''/'' a) \<in> set (split_on CHR ''/'' a)" by simp
    ultimately have "[] \<in> set (split_on CHR ''/'' a)" by simp
    with a show False by blast
  qed
  have "\<forall>seg \<in> set (split_on CHR ''/'' p). seg \<noteq> [] \<and> seg \<noteq> ''.'' \<and> seg \<noteq> ''..''"
    unfolding segs using a f(2,3,4) by simp
  then have "foldl (normalizeSegment True) [] (split_on CHR ''/'' p) = [] @ split_on CHR ''/'' p"
    by (rule foldl_normalizeSegment_plain)
  then have n: "normalizeString p True = p"
    by (simp add: normalizeString_def join_sep_split_on)
  have "last p = last f" using f(2) by (simp add: p_def)
  then have "last p \<noteq> CHR ''/''" using f(1,2) last_in_set by metis
  moreover have "p \<noteq> []" by (simp add: p_def)
  ultimately have "path_normalize p = p" using n rel by (simp add: path_normalize_def Let_def)
  moreover have "path_join [a, f] = path_normalize p"
    unfolding p_def using path_join_arguments [OF f(2), of a] ne by simp
  ultimately show ?thesis by (simp add: p_def)
qed


subsection \<open>The plan of files and commands\<close>

lemma map_fst_setEntry:
  "map fst (setEntry ps k x) = (if k \<in> fst ` set ps then map fst ps else map fst ps @ [k])"
  by (induction ps) force+

lemma keys_setEntry: "fst ` set (setEntry ps k x) = insert k (fst ` set ps)"
proof -
  have "set (map fst (setEntry ps k x)) = insert k (set (map fst ps))"
    unfolding map_fst_setEntry by auto
  then show ?thesis by simp
qed

lemma buildGitIgnore_world: "snd (buildGitIgnore g w) = w"
  by (simp add: buildGitIgnore_eval split: option.splits entry.splits)

lemma bindIO_Inr:
  "bindIO m f w = (Inr x, w') \<longleftrightarrow> (\<exists>a w1. m w = (Inr a, w1) \<and> f a w1 = (Inr x, w'))"
  by (auto simp: bindIO_def split: prod.splits sum.splits)

lemma return_eq: "return a w = (r, w') \<longleftrightarrow> r = Inr a \<and> w' = w"
  by (auto simp: return_def)

lemma fromHost_eq: "fromHost f w = (r, w') \<longleftrightarrow> r = f (host w) \<and> w' = w"
  by (auto simp: fromHost_def)

lemma buildGitIgnore_eq: "buildGitIgnore g w = (r, w') \<Longrightarrow> w' = w \<and> r = fst (buildGitIgnore g w)"
  using buildGitIgnore_world [of g w] by (cases "buildGitIgnore g w") auto

lemma identifyChanges_world:
  assumes "identifyChanges U g answers w = (Inr changes, w')"
  shows "w' = w"
proof (cases "installGitHubActions answers")
  case True
  with assms show ?thesis unfolding identifyChanges_def Let_def readAsset_def
    by (clarsimp simp: bindIO_Inr return_eq fromHost_eq split del: if_split
        dest!: buildGitIgnore_eq)
next
  case False
  with assms show ?thesis unfolding identifyChanges_def Let_def readAsset_def
    by (clarsimp simp: bindIO_Inr return_eq fromHost_eq split del: if_split
        dest!: buildGitIgnore_eq)
qed


lemma identifyChanges_keys:
  assumes "identifyChanges U g answers w = (Inr changes, w')"
  shows "fst ` set (files changes) =
           {''playwright.config.'' @ languagetoFileExtension U (language answers),
            path_join [testDir answers,
              ''example.spec.'' @ languagetoFileExtension U (language answers)],
            ''.gitignore''} \<union>
           (if installGitHubActions answers then {''.github/workflows/playwright.yml''} else {})"
proof (cases "installGitHubActions answers")
  case True
  with assms show ?thesis unfolding identifyChanges_def Let_def readAsset_def
    by (clarsimp simp: bindIO_Inr return_eq fromHost_eq keys_setEntry simp del: setEntry.simps
        split del: if_split dest!: buildGitIgnore_eq) blast
next
  case False
  with assms show ?thesis unfolding identifyChanges_def Let_def readAsset_def
    by (clarsimp simp: bindIO_Inr return_eq fromHost_eq keys_setEntry simp del: setEntry.simps
        split del: if_split dest!: buildGitIgnore_eq) blast
qed

lemma identifyChanges_commands:
  assumes "identifyChanges U g answers w = (Inr changes, w')"
  shows "commands changes =
           (if \<not> existsSync (path_join [rootDir g, ''package.json'']) (host w)
            then [\<lparr>name = ''Initializing '' @ (if packageManager g = yarn then ''Yarn'' else ''NPM'')
                           @ '' project'',
                   command = (if packageManager g = yarn then ''yarn init -y'' else ''npm init -y'')\<rparr>]
            else []) @
           [\<lparr>name = ''Installing Playwright Test'',
             command = (if packageManager g = yarn then ''yarn add --dev @playwright/test''
                        else ''npm install --save-dev @playwright/test'')\<rparr>,
            \<lparr>name = ''Downloading browsers'',
             command = ''npx playwright install --with-deps''\<rparr>]"
proof (cases "installGitHubActions answers")
  case True
  with assms show ?thesis unfolding identifyChanges_def Let_def readAsset_def
    by (clarsimp simp: bindIO_Inr return_eq fromHost_eq split del: if_split
        dest!: buildGitIgnore_eq)
next
  case False
  with assms show ?thesis unfolding identifyChanges_def Let_def readAsset_def
    by (clarsimp simp: bindIO_Inr return_eq fromHost_eq split del: if_split
        dest!: buildGitIgnore_eq)
qed


subsection \<open>The plan on the sample inputs\<close>

lemma sample_paths:
  "path_join [''/pkg/lib'', ''..'', ''assets''] = ''/pkg/assets''"
  "path_join [''/pkg/assets'', ''playwright.config.ts''] = ''/pkg/assets/playwright.config.ts''"
  "path_join [''/pkg/assets'', ''example.spec.ts''] = ''/pkg/assets/example.spec.ts''"
  "path_join [''/pkg/assets'', ''github-actions.yml''] = ''/pkg/assets/github-actions.yml''"
  "path_join [''e2e'', ''example.spec.ts''] = ''e2e/example.spec.ts''"
  "path_join [''/abs'', ''example.spec.ts''] = ''/abs/example.spec.ts''"
  by code_simp+

lemmas sample_defs = sampleImports_def sampleGenerator_def sampleWorld_def sampleAssets_def
  sampleAnswers_def

lemma sample_plan:
  "identifyChanges sampleImports sampleGenerator sampleAnswers sampleWorld =
     (Inr \<lparr>files = [(''playwright.config.ts'', ''config''),
                     (''.github/workflows/playwright.yml'', ''workflow''),
                     (''e2e/example.spec.ts'', ''example''),
                     (''.gitignore'', ''node_modules/\<newline>test-results/\<newline>'')],
           commands = [\<lparr>name = ''Initializing NPM project'', command = ''npm init -y''\<rparr>,
                       \<lparr>name = ''Installing Playwright Test'',
                        command = ''npm install --save-dev @playwright/test''\<rparr>,
                       \<lparr>name = ''Downloading browsers'',
                        command = ''npx playwright install --with-deps''\<rparr>]\<rparr>, sampleWorld)"
  by (simp add: identifyChanges_def Let_def readAsset_def io_defs sample_defs sample_paths
      join_proj_package join_proj_gitignore buildGitIgnore_eval existsSync_def readFileSync_def
      commandToRunTests_def)


text \<open>
  Claim C6. A plan that is computed holds the config file \<^verbatim>\<open>playwright.config.<ext>\<close>, the
  example test \<^verbatim>\<open>example.spec.<ext>\<close> joined to the test directory, and \<^verbatim>\<open>.gitignore\<close>; it
  holds the workflow file exactly when \<^verbatim>\<open>installGitHubActions\<close> is true. The extension comes
  from \<^verbatim>\<open>languagetoFileExtension\<close>, which is imported: the last two parts assume that it
  has no separator in it. For a test directory made of plain segments the joined path is
  literally \<^verbatim>\<open><testDir>/example.spec.<ext>\<close>.
\<close>

theorem identifyChanges_file_set:
  assumes "identifyChanges U g answers w = (Inr changes, w')"
    and "ext = languagetoFileExtension U (language answers)"
  shows "''playwright.config.'' @ ext \<in> fst ` set (files changes) \<and>
         path_join [testDir answers, ''example.spec.'' @ ext] \<in> fst ` set (files changes) \<and>
         ''.gitignore'' \<in> fst ` set (files changes) \<and>
         (CHR ''/'' \<notin> set ext \<longrightarrow>
            (''.github/workflows/playwright.yml'' \<in> fst ` set (files changes)
               \<longleftrightarrow> installGitHubActions answers)) \<and>
         (CHR ''/'' \<notin> set ext \<and>
          (\<forall>seg \<in> set (split_on CHR ''/'' (testDir answers)).
             seg \<noteq> [] \<and> seg \<noteq> ''.'' \<and> seg \<noteq> ''..'') \<longrightarrow>
            path_join [testDir answers, ''example.spec.'' @ ext]
              = testDir answers @ ''/example.spec.'' @ ext)"
proof -
  note keys = identifyChanges_keys [OF assms(1), folded assms(2)]
  have workflow: "''.github/workflows/playwright.yml'' \<in> fst ` set (files changes)
                    \<longleftrightarrow> installGitHubActions answers"
    if slash: "CHR ''/'' \<notin> set ext"
  proof -
    have "last (split_on CHR ''/'' (path_join [testDir answers, ''example.spec.'' @ ext]))
            = ''example.spec.'' @ ext"
      by (rule path_join_last_segment) (use slash in simp_all)
    moreover have "last (split_on CHR ''/'' ''.github/workflows/playwright.yml'') = ''playwright.yml''"
      by code_simp
    ultimately have "path_join [testDir answers, ''example.spec.'' @ ext]
                       \<noteq> ''.github/workflows/playwright.yml''"
      by auto
    then show ?thesis unfolding keys by simp
  qed
  have plain: "path_join [testDir answers, ''example.spec.'' @ ext]
                 = testDir answers @ ''/example.spec.'' @ ext"
    if "CHR ''/'' \<notin> set ext"
      and "\<forall>seg \<in> set (split_on CHR ''/'' (testDir answers)). seg \<noteq> [] \<and> seg \<noteq> ''.'' \<and> seg \<noteq> ''..''"
    using path_join_plain [OF that(2), of "''example.spec.'' @ ext"] that(1) by simp
  show ?thesis using workflow plain unfolding keys by simp
qed

text \<open>
  The plan for the default answers.
\<close>

theorem identifyChanges_file_set_witness:
  "''playwright.config.ts'' \<in> fst ` set (files (projr (fst
      (identifyChanges sampleImports sampleGenerator sampleAnswers sampleWorld)))) \<and>
   ''e2e/example.spec.ts'' \<in> fst ` set (files (projr (fst
      (identifyChanges sampleImports sampleGenerator sampleAnswers sampleWorld)))) \<and>
   ''.gitignore'' \<in> fst ` set (files (projr (fst
      (identifyChanges sampleImports sampleGenerator sampleAnswers sampleWorld)))) \<and>
   ''.github/workflows/playwright.yml'' \<in> fst ` set (files (projr (fst
      (identifyChanges sampleImports sampleGenerator sampleAnswers sampleWorld)))) \<and>
   installGitHubActions sampleAnswers"
proof -
  have e: "''ts'' = languagetoFileExtension sampleImports (language sampleAnswers)"
    by (simp add: sample_defs)
  have s: "CHR ''/'' \<notin> set ''ts''" by simp
  have t: "testDir sampleAnswers = ''e2e''" "installGitHubActions sampleAnswers"
    by (simp_all add: sample_defs)
  have p: "\<forall>seg \<in> set (split_on CHR ''/'' ''e2e''). seg \<noteq> [] \<and> seg \<noteq> ''.'' \<and> seg \<noteq> ''..''"
    by simp
  from identifyChanges_file_set [OF sample_plan e] s t p show ?thesis
    by (simp add: sample_plan)
qed


lemma executeCommands_spec_prefix:
  "prefix (snd (executeCommands_spec execSync cwd cs h)) cs"
  by (induction cs arbitrary: h) (simp_all add: case_prod_beta split: option.splits)

lemma executeCommands_spec_all:
  "fst (fst (executeCommands_spec execSync cwd cs h)) = None
     \<Longrightarrow> snd (executeCommands_spec execSync cwd cs h) = cs"
  by (induction cs arbitrary: h) (simp_all add: case_prod_beta split: option.splits)

lemma keys_relative:
  assumes "identifyChanges U g answers w = (Inr changes, w')"
  shows "(\<forall>p \<in> fst ` set (files changes). \<not> isAbsolute p) \<longleftrightarrow> \<not> isAbsolute (testDir answers)"
proof -
  have "isAbsolute (path_join [testDir answers,
            ''example.spec.'' @ languagetoFileExtension U (language answers)])
          = isAbsolute (testDir answers)"
    by (rule path_join_isAbsolute) (simp_all add: isAbsolute_def)
  moreover have "\<not> isAbsolute (''playwright.config.'' @ languagetoFileExtension U (language answers))"
    "\<not> isAbsolute ''.gitignore''" "\<not> isAbsolute ''.github/workflows/playwright.yml''"
    by (simp_all add: isAbsolute_def)
  ultimately show ?thesis unfolding identifyChanges_keys [OF assms] by auto
qed

text \<open>
  Claim C8, as amended. The paths of a computed plan are all relative exactly when the
  \<^verbatim>\<open>testDir\<close> answer is not absolute. The command list is the initialisation command, present
  exactly when \<^verbatim>\<open>package.json\<close> does not exist under the root directory, then the install
  command, then the browser download. Run as the spec describes \<^verbatim>\<open>executeCommands\<close>, the
  commands started are a prefix of that list, and the whole list when none fails.
\<close>

theorem identifyChanges_paths_and_commands:
  assumes "identifyChanges U g answers w = (Inr changes, w')"
  shows "((\<forall>p \<in> fst ` set (files changes). \<not> isAbsolute p) \<longleftrightarrow> \<not> isAbsolute (testDir answers)) \<and>
         commands changes =
           (if \<not> existsSync (path_join [rootDir g, ''package.json'']) (host w)
            then [\<lparr>name = ''Initializing '' @ (if packageManager g = yarn then ''Yarn'' else ''NPM'')
                           @ '' project'',
                   command = (if packageManager g = yarn then ''yarn init -y'' else ''npm init -y'')\<rparr>]
            else []) @
           [\<lparr>name = ''Installing Playwright Test'',
             command = (if packageManager g = yarn then ''yarn add --dev @playwright/test''
                        else ''npm install --save-dev @playwright/test'')\<rparr>,
            \<lparr>name = ''Downloading browsers'',
             command = ''npx playwright install --with-deps''\<rparr>] \<and>
         (\<forall>execSync h.
            prefix (snd (executeCommands_spec execSync (rootDir g) (commands changes) h))
              (commands changes) \<and>
            (fst (fst (executeCommands_spec execSync (rootDir g) (commands changes) h)) = None \<longrightarrow>
               snd (executeCommands_spec execSync (rootDir g) (commands changes) h)
                 = commands changes))"
  apply (intro conjI allI impI)
     apply (rule keys_relative [OF assms])
    apply (rule identifyChanges_commands [OF assms])
   apply (rule executeCommands_spec_prefix)
  apply (erule executeCommands_spec_all)
  done


text \<open>
  The default answers in a project without \<^verbatim>\<open>package.json\<close>, with commands that succeed.
\<close>

theorem identifyChanges_paths_and_commands_witness:
  "\<not> isAbsolute (testDir sampleAnswers) \<and>
   \<not> isAbsolute ''playwright.config.ts'' \<and>
   \<not> isAbsolute ''.github/workflows/playwright.yml'' \<and>
   \<not> isAbsolute ''e2e/example.spec.ts'' \<and>
   \<not> isAbsolute ''.gitignore'' \<and>
   map command (commands (projr (fst
     (identifyChanges sampleImports sampleGenerator sampleAnswers sampleWorld))))
     = [''npm init -y'', ''npm install --save-dev @playwright/test'',
        ''npx playwright install --with-deps''] \<and>
   map command (snd (executeCommands_spec (\<lambda>line cwd h. (None, h)) ''/proj''
     (commands (projr (fst
        (identifyChanges sampleImports sampleGenerator sampleAnswers sampleWorld))))
     (host sampleWorld)))
     = [''npm init -y'', ''npm install --save-dev @playwright/test'',
        ''npx playwright install --with-deps'']"
proof -
  have rel: "\<not> isAbsolute (testDir sampleAnswers)"
    by (simp add: sample_defs isAbsolute_def)
  have "\<forall>p \<in> fst ` set (files (projr (fst
          (identifyChanges sampleImports sampleGenerator sampleAnswers sampleWorld)))).
          \<not> isAbsolute p"
    unfolding sample_plan fst_conv sum.sel
    using identifyChanges_paths_and_commands [OF sample_plan, THEN conjunct1] rel
    by (rule iffD2)
  then have paths: "\<not> isAbsolute ''playwright.config.ts'' \<and>
      \<not> isAbsolute ''.github/workflows/playwright.yml'' \<and>
      \<not> isAbsolute ''e2e/example.spec.ts'' \<and> \<not> isAbsolute ''.gitignore''"
    by (simp add: sample_plan)
  show ?thesis using rel paths by (simp add: sample_plan)
qed

text \<open>
  Claim C8 as stated has every path of the plan relative. The test directory is free text:
  with \<^verbatim>\<open>/abs\<close> the example test is planned at an absolute path.
\<close>

theorem identifyChanges_absolute_counterexample:
  "fst (identifyChanges sampleImports sampleGenerator
          (sampleAnswers\<lparr>testDir := ''/abs''\<rparr>) sampleWorld)
     = Inr \<lparr>files = [(''playwright.config.ts'', ''config''),
                      (''.github/workflows/playwright.yml'', ''workflow''),
                      (''/abs/example.spec.ts'', ''example''),
                      (''.gitignore'', ''node_modules/\<newline>test-results/\<newline>'')],
            commands = [\<lparr>name = ''Initializing NPM project'', command = ''npm init -y''\<rparr>,
                        \<lparr>name = ''Installing Playwright Test'',
                         command = ''npm install --save-dev @playwright/test''\<rparr>,
                        \<lparr>name = ''Downloading browsers'',
                         command = ''npx playwright install --with-deps''\<rparr>]\<rparr> \<and>
   isAbsolute ''/abs/example.spec.ts''"
  by (simp add: identifyChanges_def Let_def readAsset_def io_defs sample_defs sample_paths
      join_proj_package join_proj_gitignore buildGitIgnore_eval existsSync_def readFileSync_def
      commandToRunTests_def isAbsolute_def)


subsection \<open>The questions\<close>

lemma promptIO_eval:
  "promptIO U qs w =
     (fst (prompt U qs (host w)),
      w\<lparr>host := snd (prompt U qs (host w)), trace := trace w @ [Prompt qs]\<rparr>)"
  by (simp add: promptIO_def io_defs split: prod.splits)

text \<open>
  Claim C5, as amended. When \<^verbatim>\<open>TEST_OPTIONS\<close> is set to a non-empty text, the answers are the
  result of parsing it and the world is unchanged: no prompt is shown. When it is unset or
  empty, the prompt is shown with the three questions \<^verbatim>\<open>language\<close>, \<^verbatim>\<open>testDir\<close> and
  \<^verbatim>\<open>installGitHubActions\<close>, and its reply is the result.
\<close>

theorem askQuestions_source:
  "(\<forall>s. TEST_OPTIONS (host w) = Some s \<and> s \<noteq> [] \<longrightarrow>
        askQuestions U w = (JSON_parse_options U s, w)) \<and>
   (TEST_OPTIONS (host w) = None \<or> TEST_OPTIONS (host w) = Some [] \<longrightarrow>
        askQuestions U w =
          (fst (prompt U questions (host w)),
           w\<lparr>host := snd (prompt U questions (host w)),
             trace := trace w @ [Prompt questions]\<rparr>)) \<and>
   map questionName questions = [''language'', ''testDir'', ''installGitHubActions'']"
  by (auto simp: askQuestions_def promptIO_eval io_defs questions_def)

text \<open>
  A world with the variable set to a JSON text, and one without the variable.
\<close>

theorem askQuestions_source_witness:
  "askQuestions sampleImports (sampleWorld\<lparr>host := (host sampleWorld)\<lparr>TEST_OPTIONS := Some sampleOptions\<rparr>\<rparr>)
     = (Inr \<lparr>testDir = ''tests'', installGitHubActions = False, language = JavaScript\<rparr>,
        sampleWorld\<lparr>host := (host sampleWorld)\<lparr>TEST_OPTIONS := Some sampleOptions\<rparr>\<rparr>) \<and>
   askQuestions sampleImports sampleWorld
     = (Inr sampleAnswers, sampleWorld\<lparr>trace := [Prompt questions]\<rparr>)"
proof -
  have a: "TEST_OPTIONS (host (sampleWorld\<lparr>host := (host sampleWorld)\<lparr>TEST_OPTIONS := Some sampleOptions\<rparr>\<rparr>))
             = Some sampleOptions \<and> sampleOptions \<noteq> []"
    by (simp add: sampleOptions_def)
  have b: "TEST_OPTIONS (host sampleWorld) = None \<or> TEST_OPTIONS (host sampleWorld) = Some []"
    by (simp add: sampleWorld_def)
  from askQuestions_source [of "sampleWorld\<lparr>host := (host sampleWorld)\<lparr>TEST_OPTIONS := Some sampleOptions\<rparr>\<rparr>" sampleImports] a
  have "askQuestions sampleImports (sampleWorld\<lparr>host := (host sampleWorld)\<lparr>TEST_OPTIONS := Some sampleOptions\<rparr>\<rparr>)
          = (JSON_parse_options sampleImports sampleOptions,
             sampleWorld\<lparr>host := (host sampleWorld)\<lparr>TEST_OPTIONS := Some sampleOptions\<rparr>\<rparr>)"
    by blast
  moreover from askQuestions_source [of sampleWorld sampleImports] b
  have "askQuestions sampleImports sampleWorld =
          (fst (prompt sampleImports questions (host sampleWorld)),
           sampleWorld\<lparr>host := snd (prompt sampleImports questions (host sampleWorld)),
             trace := trace sampleWorld @ [Prompt questions]\<rparr>)"
    by blast
  ultimately show ?thesis by (simp add: sampleImports_def sampleWorld_def)
qed

text \<open>
  Claim C5 as stated shows no prompt whenever \<^verbatim>\<open>TEST_OPTIONS\<close> is set. The test is on the
  truthiness of the value: set to the empty string, the variable is ignored and the prompt
  is shown.
\<close>

theorem askQuestions_empty_counterexample:
  "TEST_OPTIONS (host (sampleWorld\<lparr>host := (host sampleWorld)\<lparr>TEST_OPTIONS := Some []\<rparr>\<rparr>)) = Some [] \<and>
   trace (snd (askQuestions sampleImports
     (sampleWorld\<lparr>host := (host sampleWorld)\<lparr>TEST_OPTIONS := Some []\<rparr>\<rparr>))) = [Prompt questions]"
  by (simp add: askQuestions_def promptIO_eval io_defs sampleImports_def sampleWorld_def)


subsection \<open>The phases of a run\<close>

lemma emit_eq: "emit ev w = (r, w') \<longleftrightarrow> r = Inr () \<and> w' = w\<lparr>trace := trace w @ [ev]\<rparr>"
  by (auto simp: emit_def)

lemma onHost_Inr:
  "onHost f w = (Inr u, w') \<longleftrightarrow> fst (f (host w)) = None \<and> w' = w\<lparr>host := snd (f (host w))\<rparr>"
  by (auto simp: onHost_def split: prod.splits option.splits)

lemma printIntro_eval:
  "printIntro g w =
     (Inr (), w\<lparr>trace := trace w @ [ConsoleLog GettingStarted,
                                      ConsoleLog (InitializingProject (rootDir g))]\<rparr>)"
  by (simp add: printIntro_def io_defs)

lemma printOutro_eval:
  "printOutro U g answers w =
     (Inr (), w\<lparr>trace := trace w @
        [ConsoleLog (Success (rootDir g)),
         ConsoleLog (Guidance (rootDir g) (commandToRunTests (packageManager g))
           (testDir answers @ ''/example.spec.'' @ languagetoFileExtension U (language answers))
           (if packageManager g = npm then ''npx'' else ''yarn''))]\<rparr>)"
  by (simp add: printOutro_def io_defs)

lemma askQuestions_trace:
  assumes "askQuestions U w = (r, w')"
  shows "trace w' = trace w @ (if prompted w then [Prompt questions] else [])"
  using assms
  by (auto simp: askQuestions_def promptIO_eval io_defs prompted_def split: option.splits if_splits)

lemma patchPackageJSON_Inr:
  assumes "patchPackageJSON U g w = (Inr u, w')"
  shows "\<exists>packageJSON.
           trace w' = trace w @ [CreateFiles (rootDir g) [(''package.json'', packageJSON)] (Some True)] \<and>
           fst (createFiles U (rootDir g) [(''package.json'', packageJSON)] (Some True) (host w)) = None \<and>
           host w' = snd (createFiles U (rootDir g) [(''package.json'', packageJSON)] (Some True) (host w))"
  using assms unfolding patchPackageJSON_def
  by (auto simp: bindIO_Inr return_eq fromHost_eq emit_eq onHost_Inr)

lemma run_Inr:
  assumes "run U g w = (Inr u, w')"
  shows "\<exists>answers changes packageJSON w1.
           askQuestions U (snd (printIntro g w)) = (Inr answers, w1) \<and>
           identifyChanges U g answers w1 = (Inr changes, w1) \<and>
           fst (executeCommands U (rootDir g) (commands changes) (host w1)) = None \<and>
           host w' =
             snd (createFiles U (rootDir g) [(''package.json'', packageJSON)] (Some True)
               (snd (createFiles U (rootDir g) (files changes) None
                 (snd (executeCommands U (rootDir g) (commands changes) (host w1)))))) \<and>
           trace w' = trace w1 @
             [ExecuteCommands (rootDir g) (commands changes),
              CreateFiles (rootDir g) (files changes) None,
              CreateFiles (rootDir g) [(''package.json'', packageJSON)] (Some True),
              ConsoleLog (Success (rootDir g)),
              ConsoleLog (Guidance (rootDir g) (commandToRunTests (packageManager g))
                (testDir answers @ ''/example.spec.'' @ languagetoFileExtension U (language answers))
                (if packageManager g = npm then ''npx'' else ''yarn''))]"
proof -
  from assms obtain answers w1 changes w2 w3 w4 where
    ask: "askQuestions U (snd (printIntro g w)) = (Inr answers, w1)" and
    plan: "identifyChanges U g answers w1 = (Inr changes, w2)" and
    ok: "fst (executeCommands U (rootDir g) (commands changes) (host w2)) = None" and
    w3: "w3 = w2\<lparr>trace := trace w2 @ [ExecuteCommands (rootDir g) (commands changes)],
                  host := snd (executeCommands U (rootDir g) (commands changes) (host w2))\<rparr>" and
    w4: "w4 = w3\<lparr>trace := trace w3 @ [CreateFiles (rootDir g) (files changes) None],
                  host := snd (createFiles U (rootDir g) (files changes) None (host w3))\<rparr>" and
    rest: "bindIO (patchPackageJSON U g) (\<lambda>_. printOutro U g answers) w4 = (Inr u, w')"
    unfolding run_def
    by (auto simp: bindIO_Inr [where m = "printIntro g"] bindIO_Inr [where m = "askQuestions U"]
        bindIO_Inr [where m = "identifyChanges U g a" for a]
        bindIO_Inr [where m = "emit e" for e] bindIO_Inr [where m = "onHost f" for f]
        printIntro_eval emit_eq onHost_Inr)
  from plan have w2: "w2 = w1" by (rule identifyChanges_world)
  from rest obtain w5 where
    patch: "patchPackageJSON U g w4 = (Inr (), w5)" and
    outro: "printOutro U g answers w5 = (Inr u, w')"
    by (auto simp: bindIO_Inr)
  from patchPackageJSON_Inr [OF patch] obtain packageJSON where
    p: "trace w5 = trace w4 @ [CreateFiles (rootDir g) [(''package.json'', packageJSON)] (Some True)]"
       "host w5 = snd (createFiles U (rootDir g) [(''package.json'', packageJSON)] (Some True) (host w4))"
    by blast
  from outro have w': "w' = w5\<lparr>trace := trace w5 @
        [ConsoleLog (Success (rootDir g)),
         ConsoleLog (Guidance (rootDir g) (commandToRunTests (packageManager g))
           (testDir answers @ ''/example.spec.'' @ languagetoFileExtension U (language answers))
           (if packageManager g = npm then ''npx'' else ''yarn''))]\<rparr>"
    by (simp add: printOutro_eval)
  have "host w' = snd (createFiles U (rootDir g) [(''package.json'', packageJSON)] (Some True)
               (snd (createFiles U (rootDir g) (files changes) None
                 (snd (executeCommands U (rootDir g) (commands changes) (host w1))))))"
    unfolding w' using p(2) by (simp add: w4 w3 w2)
  moreover have "trace w' = trace w1 @
             [ExecuteCommands (rootDir g) (commands changes),
              CreateFiles (rootDir g) (files changes) None,
              CreateFiles (rootDir g) [(''package.json'', packageJSON)] (Some True),
              ConsoleLog (Success (rootDir g)),
              ConsoleLog (Guidance (rootDir g) (commandToRunTests (packageManager g))
                (testDir answers @ ''/example.spec.'' @ languagetoFileExtension U (language answers))
                (if packageManager g = npm then ''npx'' else ''yarn''))]"
    unfolding w' using p(1) by (simp add: w4 w3 w2)
  ultimately show ?thesis using ask plan ok w2 by blast
qed

lemma executeCommands_spec_hosts:
  "fst (fst (executeCommands_spec execSync cwd cs h)) = None
     \<Longrightarrow> snd (fst (executeCommands_spec execSync cwd cs h))
           = foldl (\<lambda>h c. snd (execSync (command c) cwd h)) h cs"
  by (induction cs arbitrary: h) (simp_all add: case_prod_beta split: option.splits)

lemma executeCommands_spec_completed:
  "fst (fst (executeCommands_spec execSync cwd cs h)) = None
     \<Longrightarrow> snd (executeCommands_spec execSync cwd cs h) = cs"
  by (induction cs arbitrary: h) (simp_all add: case_prod_beta split: option.splits)

lemma sample_seq_ok: "fst (run sampleImportsSeq sampleGenerator sampleWorld) = Inr ()"
  by code_simp

lemma sample_seq_executeCommands:
  "executeCommands sampleImportsSeq
     = (\<lambda>cwd cmds h. fst (executeCommands_spec sampleExecSync cwd cmds h))"
  by (simp add: sampleImportsSeq_def)

text \<open>
  Claim C1, as amended. A run that completes has acted in this order: the two lines of the
  introduction, the prompt (when it is shown), the commands of the plan, the files of the
  plan, the patched \<^verbatim>\<open>package.json\<close>, the two messages of the guidance. The plan is computed
  in the world the questions leave; the commands start from that host, the files are written
  on the host the commands leave, and \<^verbatim>\<open>package.json\<close> is written on the host that leaves.
  With \<^verbatim>\<open>executeCommands\<close> as the spec describes it, the commands run one after another:
  all of them have been started, in the listed order, each on the host that the one before
  it left, and the files are written on the host that the last one left.
\<close>

theorem run_phases:
  assumes "run U g w = (Inr u, w')"
  shows "\<exists>answers changes packageJSON w1.
           askQuestions U (snd (printIntro g w)) = (Inr answers, w1) \<and>
           identifyChanges U g answers w1 = (Inr changes, w1) \<and>
           host w' =
             snd (createFiles U (rootDir g) [(''package.json'', packageJSON)] (Some True)
               (snd (createFiles U (rootDir g) (files changes) None
                 (snd (executeCommands U (rootDir g) (commands changes) (host w1)))))) \<and>
           trace w' = trace w @
             [ConsoleLog GettingStarted, ConsoleLog (InitializingProject (rootDir g))] @
             (if prompted w then [Prompt questions] else []) @
             [ExecuteCommands (rootDir g) (commands changes),
              CreateFiles (rootDir g) (files changes) None,
              CreateFiles (rootDir g) [(''package.json'', packageJSON)] (Some True),
              ConsoleLog (Success (rootDir g)),
              ConsoleLog (Guidance (rootDir g) (commandToRunTests (packageManager g))
                (testDir answers @ ''/example.spec.'' @ languagetoFileExtension U (language answers))
                (if packageManager g = npm then ''npx'' else ''yarn''))] \<and>
           (\<forall>execSync.
              executeCommands U = (\<lambda>cwd cmds h. fst (executeCommands_spec execSync cwd cmds h)) \<longrightarrow>
                snd (executeCommands_spec execSync (rootDir g) (commands changes) (host w1))
                  = commands changes \<and>
                snd (executeCommands U (rootDir g) (commands changes) (host w1))
                  = foldl (\<lambda>h c. snd (execSync (command c) (rootDir g) h)) (host w1)
                      (commands changes))"
proof -
  from run_Inr [OF assms] obtain answers changes packageJSON w1 where
    ask: "askQuestions U (snd (printIntro g w)) = (Inr answers, w1)" and
    plan: "identifyChanges U g answers w1 = (Inr changes, w1)" and
    ok: "fst (executeCommands U (rootDir g) (commands changes) (host w1)) = None" and
    h: "host w' =
             snd (createFiles U (rootDir g) [(''package.json'', packageJSON)] (Some True)
               (snd (createFiles U (rootDir g) (files changes) None
                 (snd (executeCommands U (rootDir g) (commands changes) (host w1))))))" and
    t: "trace w' = trace w1 @
             [ExecuteCommands (rootDir g) (commands changes),
              CreateFiles (rootDir g) (files changes) None,
              CreateFiles (rootDir g) [(''package.json'', packageJSON)] (Some True),
              ConsoleLog (Success (rootDir g)),
              ConsoleLog (Guidance (rootDir g) (commandToRunTests (packageManager g))
                (testDir answers @ ''/example.spec.'' @ languagetoFileExtension U (language answers))
                (if packageManager g = npm then ''npx'' else ''yarn''))]"
    by blast
  have "prompted (snd (printIntro g w)) = prompted w"
    by (simp add: printIntro_eval prompted_def)
  with askQuestions_trace [OF ask]
  have "trace w1 = trace w @
          [ConsoleLog GettingStarted, ConsoleLog (InitializingProject (rootDir g))] @
          (if prompted w then [Prompt questions] else [])"
    by (simp add: printIntro_eval)
  with t have t': "trace w' = trace w @
             [ConsoleLog GettingStarted, ConsoleLog (InitializingProject (rootDir g))] @
             (if prompted w then [Prompt questions] else []) @
             [ExecuteCommands (rootDir g) (commands changes),
              CreateFiles (rootDir g) (files changes) None,
              CreateFiles (rootDir g) [(''package.json'', packageJSON)] (Some True),
              ConsoleLog (Success (rootDir g)),
              ConsoleLog (Guidance (rootDir g) (commandToRunTests (packageManager g))
                (testDir answers @ ''/example.spec.'' @ languagetoFileExtension U (language answers))
                (if packageManager g = npm then ''npx'' else ''yarn''))]"
    by simp
  have seq: "snd (executeCommands_spec execSync (rootDir g) (commands changes) (host w1))
               = commands changes \<and>
             snd (executeCommands U (rootDir g) (commands changes) (host w1))
               = foldl (\<lambda>h c. snd (execSync (command c) (rootDir g) h)) (host w1) (commands changes)"
    if U: "executeCommands U = (\<lambda>cwd cmds h. fst (executeCommands_spec execSync cwd cmds h))"
    for execSync
  proof -
    from ok have none:
      "fst (fst (executeCommands_spec execSync (rootDir g) (commands changes) (host w1))) = None"
      by (simp add: U)
    from executeCommands_spec_completed [OF none] executeCommands_spec_hosts [OF none]
    show ?thesis by (simp add: U)
  qed
  show ?thesis
    apply (intro exI conjI allI impI)
         apply (rule ask)
        apply (rule plan)
       apply (rule h)
      apply (rule t')
     apply (erule seq [THEN conjunct1])
    apply (erule seq [THEN conjunct2])
    done
qed

text \<open>
  The sample run with the commands run one by one completes; its three commands have all been
  started, in the listed order.
\<close>

theorem run_phases_witness:
  "\<exists>answers changes packageJSON w1.
     askQuestions sampleImportsSeq (snd (printIntro sampleGenerator sampleWorld)) = (Inr answers, w1) \<and>
     identifyChanges sampleImportsSeq sampleGenerator answers w1 = (Inr changes, w1) \<and>
     host (snd (run sampleImportsSeq sampleGenerator sampleWorld)) =
       snd (createFiles sampleImportsSeq (rootDir sampleGenerator)
              [(''package.json'', packageJSON)] (Some True)
         (snd (createFiles sampleImportsSeq (rootDir sampleGenerator) (files changes) None
           (snd (executeCommands sampleImportsSeq (rootDir sampleGenerator) (commands changes)
                   (host w1)))))) \<and>
     trace (snd (run sampleImportsSeq sampleGenerator sampleWorld)) = trace sampleWorld @
       [ConsoleLog GettingStarted, ConsoleLog (InitializingProject (rootDir sampleGenerator))] @
       (if prompted sampleWorld then [Prompt questions] else []) @
       [ExecuteCommands (rootDir sampleGenerator) (commands changes),
        CreateFiles (rootDir sampleGenerator) (files changes) None,
        CreateFiles (rootDir sampleGenerator) [(''package.json'', packageJSON)] (Some True),
        ConsoleLog (Success (rootDir sampleGenerator)),
        ConsoleLog (Guidance (rootDir sampleGenerator)
          (commandToRunTests (packageManager sampleGenerator))
          (testDir answers @ ''/example.spec.'' @
             languagetoFileExtension sampleImportsSeq (language answers))
          (if packageManager sampleGenerator = npm then ''npx'' else ''yarn''))] \<and>
     snd (executeCommands_spec sampleExecSync (rootDir sampleGenerator) (commands changes) (host w1))
       = commands changes \<and>
     snd (executeCommands sampleImportsSeq (rootDir sampleGenerator) (commands changes) (host w1))
       = foldl (\<lambda>h c. snd (sampleExecSync (command c) (rootDir sampleGenerator) h)) (host w1)
           (commands changes)"
proof -
  have "run sampleImportsSeq sampleGenerator sampleWorld
          = (Inr (), snd (run sampleImportsSeq sampleGenerator sampleWorld))"
    using sample_seq_ok by (cases "run sampleImportsSeq sampleGenerator sampleWorld") simp
  from run_phases [OF this] sample_seq_executeCommands show ?thesis by blast
qed

text \<open>
  Claim C1 as stated writes the planned files before it runs the commands. The source calls
  \<^verbatim>\<open>executeCommands\<close> first and \<^verbatim>\<open>createFiles\<close> after it: in the trace of the sample run the
  commands come before the files.
\<close>

theorem run_order_counterexample:
  "trace (snd (run sampleImports sampleGenerator sampleWorld)) =
         [ConsoleLog GettingStarted,
          ConsoleLog (InitializingProject ''/proj''),
          Prompt questions,
          ExecuteCommands ''/proj''
            [\<lparr>name = ''Initializing NPM project'', command = ''npm init -y''\<rparr>,
             \<lparr>name = ''Installing Playwright Test'',
              command = ''npm install --save-dev @playwright/test''\<rparr>,
             \<lparr>name = ''Downloading browsers'',
              command = ''npx playwright install --with-deps''\<rparr>],
          CreateFiles ''/proj''
            [(''playwright.config.ts'', ''config''),
             (''.github/workflows/playwright.yml'', ''workflow''),
             (''e2e/example.spec.ts'', ''example''),
             (''.gitignore'', ''node_modules/\<newline>test-results/\<newline>'')] None,
          CreateFiles ''/proj'' [(''package.json'', sampleJSON @ ''\<newline>'')] (Some True),
          ConsoleLog (Success ''/proj''),
          ConsoleLog (Guidance ''/proj'' ''npm run test:e2e'' ''e2e/example.spec.ts'' ''npx'')]"
  by code_simp



subsection \<open>Dependence on the inputs read\<close>

lemma readsOnly_return: "readsOnly P (return a)"
  by (simp add: readsOnly_def return_def)

lemma readsOnly_const: "readsOnly P (fromHost (\<lambda>h. c))"
  by (simp add: readsOnly_def fromHost_def)

lemma readsOnly_readFileSync: "p \<in> P \<Longrightarrow> readsOnly P (fromHost (readFileSync p))"
  by (simp add: readsOnly_def fromHost_def readFileSync_def)

lemma readsOnly_existsSync: "p \<in> P \<Longrightarrow> readsOnly P (fromHost (\<lambda>h. Inr (existsSync p h)))"
  by (simp add: readsOnly_def fromHost_def existsSync_def)

lemma readsOnly_bindIO:
  assumes "readsOnly P m" and "\<And>a. readsOnly P (f a)"
  shows "readsOnly P (bindIO m f)"
proof -
  have w: "snd (bindIO m f w) = w" for w
  proof (cases "m w")
    case (Pair r w1)
    with assms(1) have "w1 = w" by (metis readsOnly_def snd_conv)
    with Pair assms(2) show ?thesis
      by (cases r) (simp_all add: bindIO_def readsOnly_def)
  qed
  have r: "fst (bindIO m f w1) = fst (bindIO m f w2)"
    if agree: "\<forall>p \<in> P. fs (host w1) p = fs (host w2) p" for w1 w2
  proof -
    from assms(1) agree have m: "fst (m w1) = fst (m w2)" by (simp add: readsOnly_def)
    from assms(1) have s: "snd (m w1) = w1" "snd (m w2) = w2" by (simp_all add: readsOnly_def)
    show ?thesis
    proof (cases "fst (m w1)")
      case (Inl e)
      with m s have "m w1 = (Inl e, w1)" "m w2 = (Inl e, w2)" by (metis prod.collapse)+
      then show ?thesis by (simp add: bindIO_def)
    next
      case (Inr a)
      with m s have "m w1 = (Inr a, w1)" "m w2 = (Inr a, w2)" by (metis prod.collapse)+
      moreover from assms(2) agree have "fst (f a w1) = fst (f a w2)" by (simp add: readsOnly_def)
      ultimately show ?thesis by (simp add: bindIO_def)
    qed
  qed
  show ?thesis unfolding readsOnly_def using w r by blast
qed

lemma readsOnly_if:
  assumes "c \<Longrightarrow> readsOnly P a" and "\<not> c \<Longrightarrow> readsOnly P b"
  shows "readsOnly P (if c then a else b)"
  using assms by simp

lemma readsOnly_buildGitIgnore:
  assumes "path_join [rootDir g, ''.gitignore''] \<in> P"
  shows "readsOnly P (buildGitIgnore g)"
  unfolding buildGitIgnore_def
  by (intro readsOnly_bindIO readsOnly_if readsOnly_return readsOnly_readFileSync
      readsOnly_existsSync assms)

lemma readsOnly_identifyChanges:
  "readsOnly (set (inputsRead U g answers)) (identifyChanges U g answers)"
  unfolding identifyChanges_def Let_def readAsset_def
  by (intro readsOnly_bindIO readsOnly_if readsOnly_return readsOnly_readFileSync
      readsOnly_existsSync readsOnly_const readsOnly_buildGitIgnore)
     (simp_all add: inputsRead_def Let_def)


lemma patchPackageJSON_events:
  "trace (snd (patchPackageJSON U g w)) = trace w @
     (case readFileSync (path_join [rootDir g, ''package.json'']) (host w) of
        Inl e \<Rightarrow> []
      | Inr content \<Rightarrow>
          (case JSON_parse U content of
             Inl e \<Rightarrow> []
           | Inr packageJSON \<Rightarrow>
               (case patchScripts packageJSON of
                  Inl e \<Rightarrow> []
                | Inr patched \<Rightarrow>
                    [CreateFiles (rootDir g)
                       [(''package.json'', JSON_stringify U (jsonValue patched) @ ''\<newline>'')]
                       (Some True)])))"
  by (simp add: patchPackageJSON_def io_defs split: sum.splits prod.splits option.splits)

text \<open>
  Claim C3. For fixed answers, generator and imported functions, the plan computation leaves
  the world as it is, and in two worlds whose file systems agree at the paths it reads (the
  assets, \<^verbatim>\<open>.gitignore\<close> and \<^verbatim>\<open>package.json\<close> under the root directory) it returns the same
  result: the same files with the same contents and the same commands, or the same error.
  The patch step hands the same \<^verbatim>\<open>package.json\<close> text to \<^verbatim>\<open>createFiles\<close> in both.
\<close>

theorem plan_deterministic:
  assumes "\<forall>p \<in> set (inputsRead U g answers). fs (host w1) p = fs (host w2) p"
  shows "fst (identifyChanges U g answers w1) = fst (identifyChanges U g answers w2) \<and>
         snd (identifyChanges U g answers w1) = w1 \<and>
         drop (length (trace w1)) (trace (snd (patchPackageJSON U g w1)))
           = drop (length (trace w2)) (trace (snd (patchPackageJSON U g w2)))"
proof -
  have "path_join [rootDir g, ''package.json''] \<in> set (inputsRead U g answers)"
    by (simp add: inputsRead_def Let_def)
  with assms have "readFileSync (path_join [rootDir g, ''package.json'']) (host w1)
                     = readFileSync (path_join [rootDir g, ''package.json'']) (host w2)"
    by (simp add: readFileSync_def)
  then have "drop (length (trace w1)) (trace (snd (patchPackageJSON U g w1)))
               = drop (length (trace w2)) (trace (snd (patchPackageJSON U g w2)))"
    by (simp add: patchPackageJSON_events)
  moreover from readsOnly_identifyChanges [of U g answers] assms
  have "fst (identifyChanges U g answers w1) = fst (identifyChanges U g answers w2)"
    unfolding readsOnly_def by blast
  moreover from readsOnly_identifyChanges [of U g answers]
  have "snd (identifyChanges U g answers w1) = w1"
    unfolding readsOnly_def by blast
  ultimately show ?thesis by blast
qed

text \<open>
  Two worlds that differ in a file the generator does not read and in the trace so far.
\<close>

theorem plan_deterministic_witness:
  "fst (identifyChanges sampleImports sampleGenerator sampleAnswers
          (withFile sampleWorld ''/proj/package.json'' ''{}''))
     = fst (identifyChanges sampleImports sampleGenerator sampleAnswers
          ((withFile (withFile sampleWorld ''/proj/package.json'' ''{}'') ''/proj/README.md'' ''hello'')
             \<lparr>trace := [ConsoleLog GettingStarted]\<rparr>)) \<and>
   drop (length (trace (withFile sampleWorld ''/proj/package.json'' ''{}'')))
     (trace (snd (patchPackageJSON sampleImports sampleGenerator
        (withFile sampleWorld ''/proj/package.json'' ''{}''))))
     = drop (length (trace ((withFile (withFile sampleWorld ''/proj/package.json'' ''{}'')
                ''/proj/README.md'' ''hello'')\<lparr>trace := [ConsoleLog GettingStarted]\<rparr>)))
         (trace (snd (patchPackageJSON sampleImports sampleGenerator
            ((withFile (withFile sampleWorld ''/proj/package.json'' ''{}'') ''/proj/README.md'' ''hello'')
               \<lparr>trace := [ConsoleLog GettingStarted]\<rparr>))))"
proof -
  have "\<forall>p \<in> set (inputsRead sampleImports sampleGenerator sampleAnswers).
          fs (host (withFile sampleWorld ''/proj/package.json'' ''{}'')) p
            = fs (host ((withFile (withFile sampleWorld ''/proj/package.json'' ''{}'')
                ''/proj/README.md'' ''hello'')\<lparr>trace := [ConsoleLog GettingStarted]\<rparr>)) p"
    by code_simp
  from plan_deterministic [OF this] show ?thesis by blast
qed


subsection \<open>Errors\<close>

lemma bindIO_Inl:
  "bindIO m f w = (Inl e, w') \<longleftrightarrow>
     m w = (Inl e, w') \<or> (\<exists>a w1. m w = (Inr a, w1) \<and> f a w1 = (Inl e, w'))"
  by (auto simp: bindIO_def split: prod.splits sum.splits)

lemma fromHost_result: "fromHost f w = (r, w') \<longleftrightarrow> f (host w) = r \<and> w' = w"
  by (auto simp: fromHost_def)

lemma start_Inl:
  "start U w = (Inl e, w') \<longleftrightarrow>
     (determineRootDir U (host w) = Inl e \<and> w' = w) \<or>
     (\<exists>dir. determineRootDir U (host w) = Inr dir \<and>
        (new_Generator U dir w = (Inl e, w') \<or>
         (\<exists>g w0. new_Generator U dir w = (Inr g, w0) \<and> run U g w0 = (Inl e, w'))))"
  unfolding start_def
  by (auto simp: bindIO_Inl fromHost_result)

lemma run_Inl:
  "run U g v = (Inl e, v') \<longleftrightarrow>
     (\<exists>v0. printIntro g v = (Inr (), v0) \<and>
        (askQuestions U v0 = (Inl e, v') \<or>
         (\<exists>answers v1. askQuestions U v0 = (Inr answers, v1) \<and>
            (identifyChanges U g answers v1 = (Inl e, v') \<or>
             (\<exists>changes v2 v3. identifyChanges U g answers v1 = (Inr changes, v2) \<and>
                emit (ExecuteCommands (rootDir g) (commands changes)) v2 = (Inr (), v3) \<and>
                (onHost (executeCommands U (rootDir g) (commands changes)) v3 = (Inl e, v') \<or>
                 (\<exists>v4 v5. onHost (executeCommands U (rootDir g) (commands changes)) v3 = (Inr (), v4) \<and>
                    emit (CreateFiles (rootDir g) (files changes) None) v4 = (Inr (), v5) \<and>
                    (onHost (createFiles U (rootDir g) (files changes) None) v5 = (Inl e, v') \<or>
                     (\<exists>v6. onHost (createFiles U (rootDir g) (files changes) None) v5 = (Inr (), v6) \<and>
                        patchPackageJSON U g v6 = (Inl e, v'))))))))))"
  unfolding run_def
  by (simp add: bindIO_Inl printIntro_eval printOutro_eval emit_eq)


text \<open>
  Claim C4. The exit code is 0 when the top-level function returns, with nothing logged, and
  1 when it throws: then the error is logged and the process exits, in the world the error
  left. The top-level function throws exactly when finding the root directory, constructing
  the generator or the run throws, and the run throws exactly when one of its steps does
  (the questions, the plan, the commands, the files, the patch), the steps before it having
  returned: with that step's error and that step's world, and no later step is started.
\<close>

theorem main_exit_code:
  "(case start U w of
      (Inr u, w') \<Rightarrow> main U w = (0, w')
    | (Inl e, w') \<Rightarrow>
        main U w = (1, w'\<lparr>trace := trace w' @ [ConsoleError e, ProcessExit 1]\<rparr>)) \<and>
   (start U w = (Inl e, w') \<longleftrightarrow>
     (determineRootDir U (host w) = Inl e \<and> w' = w) \<or>
     (\<exists>dir. determineRootDir U (host w) = Inr dir \<and>
        (new_Generator U dir w = (Inl e, w') \<or>
         (\<exists>g w0. new_Generator U dir w = (Inr g, w0) \<and> run U g w0 = (Inl e, w'))))) \<and>
   (run U g v = (Inl e, v') \<longleftrightarrow>
     (\<exists>v0. printIntro g v = (Inr (), v0) \<and>
        (askQuestions U v0 = (Inl e, v') \<or>
         (\<exists>answers v1. askQuestions U v0 = (Inr answers, v1) \<and>
            (identifyChanges U g answers v1 = (Inl e, v') \<or>
             (\<exists>changes v2 v3. identifyChanges U g answers v1 = (Inr changes, v2) \<and>
                emit (ExecuteCommands (rootDir g) (commands changes)) v2 = (Inr (), v3) \<and>
                (onHost (executeCommands U (rootDir g) (commands changes)) v3 = (Inl e, v') \<or>
                 (\<exists>v4 v5. onHost (executeCommands U (rootDir g) (commands changes)) v3 = (Inr (), v4) \<and>
                    emit (CreateFiles (rootDir g) (files changes) None) v4 = (Inr (), v5) \<and>
                    (onHost (createFiles U (rootDir g) (files changes) None) v5 = (Inl e, v') \<or>
                     (\<exists>v6. onHost (createFiles U (rootDir g) (files changes) None) v5 = (Inr (), v6) \<and>
                        patchPackageJSON U g v6 = (Inl e, v')))))))))))"
proof (intro conjI)
  show "case start U w of
      (Inr u, w') \<Rightarrow> main U w = (0, w')
    | (Inl e, w') \<Rightarrow>
        main U w = (1, w'\<lparr>trace := trace w' @ [ConsoleError e, ProcessExit 1]\<rparr>)"
    by (simp add: main_def split: prod.splits sum.splits)
qed (rule start_Inl, rule run_Inl)


text \<open>
  The sample run exits with 0; without the assets the plan computation throws, the error is
  logged after the prompt and the exit code is 1.
\<close>

theorem main_exit_code_witness:
  "fst (main sampleImports sampleWorld) = 0 \<and>
   fst (main sampleImports (sampleWorld\<lparr>host := (host sampleWorld)\<lparr>fs := Map.empty\<rparr>\<rparr>)) = 1 \<and>
   trace (snd (main sampleImports (sampleWorld\<lparr>host := (host sampleWorld)\<lparr>fs := Map.empty\<rparr>\<rparr>)))
     = [ConsoleLog GettingStarted, ConsoleLog (InitializingProject ''/proj''), Prompt questions,
        ConsoleError (ENOENT ''/pkg/assets/playwright.config.ts''), ProcessExit 1]"
proof -
  have a: "fst (start sampleImports sampleWorld) = Inr ()"
    by code_simp
  have b: "fst (start sampleImports (sampleWorld\<lparr>host := (host sampleWorld)\<lparr>fs := Map.empty\<rparr>\<rparr>))
             = Inl (ENOENT ''/pkg/assets/playwright.config.ts'')"
    by code_simp
  have c: "trace (snd (start sampleImports (sampleWorld\<lparr>host := (host sampleWorld)\<lparr>fs := Map.empty\<rparr>\<rparr>)))
             = [ConsoleLog GettingStarted, ConsoleLog (InitializingProject ''/proj''), Prompt questions]"
    by code_simp
  from main_exit_code [of sampleImports sampleWorld, THEN conjunct1] a
  have "main sampleImports sampleWorld = (0, snd (start sampleImports sampleWorld))"
    by (cases "start sampleImports sampleWorld") auto
  moreover
  from main_exit_code [of sampleImports "sampleWorld\<lparr>host := (host sampleWorld)\<lparr>fs := Map.empty\<rparr>\<rparr>",
      THEN conjunct1] b
  have "main sampleImports (sampleWorld\<lparr>host := (host sampleWorld)\<lparr>fs := Map.empty\<rparr>\<rparr>)
          = (1, (snd (start sampleImports (sampleWorld\<lparr>host := (host sampleWorld)\<lparr>fs := Map.empty\<rparr>\<rparr>)))
                  \<lparr>trace := trace (snd (start sampleImports
                       (sampleWorld\<lparr>host := (host sampleWorld)\<lparr>fs := Map.empty\<rparr>\<rparr>)))
                     @ [ConsoleError (ENOENT ''/pkg/assets/playwright.config.ts''), ProcessExit 1]\<rparr>)"
    by (cases "start sampleImports (sampleWorld\<lparr>host := (host sampleWorld)\<lparr>fs := Map.empty\<rparr>\<rparr>)") auto
  ultimately show ?thesis using c by simp
qed


end
